theory Spec2Isabelle
  imports Main
begin

section \<open>Data model\<close>

text \<open>
  The program is \<^verbatim>\<open>src/cursor_dev_rules/cli.py\<close>: the resource locator
  \<^verbatim>\<open>get_rules_path\<close>, the file copier \<^verbatim>\<open>copy_rule_file\<close> and the command \<^verbatim>\<open>fetch\<close>.
  File contents are byte strings. A text is the list of its characters, one element
  for each character of the Python string. A path is the list of its components below
  the root, as \<^verbatim>\<open>pathlib\<close> keeps them.
\<close>

type_synonym bytes = string
type_synonym path = "string list"

datatype node = File bytes | Dir

type_synonym filesys = "path \<rightharpoonup> node"

text \<open>
  Python exceptions, each with the text \<^verbatim>\<open>str(e)\<close> gives. \<^verbatim>\<open>click.Abort\<close> derives from
  \<^verbatim>\<open>RuntimeError\<close>, \<^verbatim>\<open>FileNotFoundError\<close> from \<^verbatim>\<open>OSError\<close>, \<^verbatim>\<open>rich.errors.MarkupError\<close> from
  \<^verbatim>\<open>Exception\<close>; the constructor \<open>OSError\<close> stands for the other operating-system
  errors (permission denied, not a directory, is a directory, file exists).
  Asynchronous interrupts, which do not derive from \<^verbatim>\<open>Exception\<close>, are outside the model.
\<close>

datatype exn =
    Abort
  | FileNotFoundError string
  | ModuleNotFoundError string
  | AttributeError string
  | TypeError string
  | OSError string
  | ValueError string
  | MarkupError string

fun str_exn :: "exn \<Rightarrow> string" where
  "str_exn Abort = []"
| "str_exn (FileNotFoundError m) = m"
| "str_exn (ModuleNotFoundError m) = m"
| "str_exn (AttributeError m) = m"
| "str_exn (TypeError m) = m"
| "str_exn (OSError m) = m"
| "str_exn (ValueError m) = m"
| "str_exn (MarkupError m) = m"

fun isinstance_Exception :: "exn \<Rightarrow> bool" where
  "isinstance_Exception Abort = True"
| "isinstance_Exception (FileNotFoundError m) = True"
| "isinstance_Exception (ModuleNotFoundError m) = True"
| "isinstance_Exception (AttributeError m) = True"
| "isinstance_Exception (TypeError m) = True"
| "isinstance_Exception (OSError m) = True"
| "isinstance_Exception (ValueError m) = True"
| "isinstance_Exception (MarkupError m) = True"

fun isinstance_FileNotFoundError :: "exn \<Rightarrow> bool" where
  "isinstance_FileNotFoundError (FileNotFoundError m) = True"
| "isinstance_FileNotFoundError e = False"

text \<open>The tuple of line 30: \<^verbatim>\<open>(ModuleNotFoundError, AttributeError, TypeError)\<close>.\<close>

fun isinstance_lookup_error :: "exn \<Rightarrow> bool" where
  "isinstance_lookup_error (ModuleNotFoundError m) = True"
| "isinstance_lookup_error (AttributeError m) = True"
| "isinstance_lookup_error (TypeError m) = True"
| "isinstance_lookup_error e = False"

text \<open>The operating-system errors the file operations of the program can meet.\<close>

datatype errno = ENOENT | ENOTDIR | EISDIR | EEXIST | EACCES

text \<open>
  A source handle is a \<^verbatim>\<open>pathlib.Path\<close> into the file system, a \<^verbatim>\<open>Traversable\<close> into the
  read-only resources of the installed package, or a bare \<^verbatim>\<open>object()\<close>, which has none
  of the attributes the code asks for.
\<close>

datatype source = PathSrc path | Traversable path | Opaque

fun hasattr :: "source \<Rightarrow> string \<Rightarrow> bool" where
  "hasattr Opaque name = False"
| "hasattr src name = (name \<in> set [''is_dir'', ''is_file'', ''exists'', ''read_bytes''])"

fun isinstance_Path :: "source \<Rightarrow> bool" where
  "isinstance_Path (PathSrc p) = True"
| "isinstance_Path src = False"

text \<open>
  What the program reads from its surroundings and never changes: the outcome of
  \<^verbatim>\<open>importlib.resources.files("cursor_dev_rules")\<close>, the packaged resources, the directory
  of \<^verbatim>\<open>cli.py\<close> (\<^verbatim>\<open>Path(__file__).parent\<close>), the outcome of \<^verbatim>\<open>Path.cwd()\<close>, and the paths
  on which the operating system refuses to read, write or create.

  Four functions of the interpreter and of the \<^verbatim>\<open>rich\<close> library are left open, so that
  every result holds whatever they are: the text of an operating-system error for a
  file name (\<^verbatim>\<open>[Errno 13] Permission denied: '/proj/.cursor'\<close>); the text \<^verbatim>\<open>str()\<close> gives for
  a handle that is no \<^verbatim>\<open>pathlib.Path\<close>; \<^verbatim>\<open>Style.normalize\<close>, which brings a tag name to the
  canonical wording of the style it defines (\<^verbatim>\<open>b\<close> to \<^verbatim>\<open>bold\<close>) and any other name to lower
  case; and the error, if any, of evaluating the parameters of a handler tag
  (\<^verbatim>\<open>[@click=...]\<close>) when that tag is closed.
\<close>

record env =
  resource_files :: "exn + source"
  package_data :: "path \<rightharpoonup> node"
  package_dir :: path
  getcwd :: "exn + path"
  denied :: "path \<Rightarrow> bool"
  strerror :: "errno \<Rightarrow> string \<Rightarrow> string"
  str_object :: "source \<Rightarrow> string"
  style_normalize :: "string \<Rightarrow> string"
  handler_error :: "string \<Rightarrow> string option"

text \<open>What \<^verbatim>\<open>console.print\<close> shows, one constructor for each call in the source.\<close>

datatype message =
    InvalidRulePathFormat
  | GeneralRuleNotFound source
  | FrameworkRuleNotFound source string
  | ErrorCopyingFile path string
  | CopiedGeneralRule path
  | CopiedFrameworkRule string path
  | BlankLine
  | SuccessfullyInstalled string path path
  | CouldNotFindRulesDirectory string
  | UnexpectedError string

text \<open>The calls a run makes, in order: each \<^verbatim>\<open>is_file()\<close> and each \<^verbatim>\<open>copy_rule_file\<close>.\<close>

datatype event = IsFile source | CopyRuleFile source path

record state =
  fs :: filesys
  console :: "message list"
  trace :: "event list"

definition record_event :: "event \<Rightarrow> state \<Rightarrow> state" where
  "record_event ev s = s\<lparr>trace := trace s @ [ev]\<rparr>"


section \<open>Console markup\<close>

text \<open>
  \<^verbatim>\<open>str(path)\<close> for an absolute path and for the relative path \<^verbatim>\<open>relative_to\<close> returns, and
  \<^verbatim>\<open>str(source)\<close>.
\<close>

definition str_path :: "path \<Rightarrow> string" where
  "str_path p = (if p = [] then ''/'' else concat (map ((#) CHR ''/'') p))"

fun str_rel :: "path \<Rightarrow> string" where
  "str_rel [] = ''.''"
| "str_rel (c # cs) = c @ concat (map ((#) CHR ''/'') cs)"

fun str_source :: "env \<Rightarrow> source \<Rightarrow> string" where
  "str_source e (PathSrc p) = str_path p"
| "str_source e src = str_object e src"

text \<open>
  The text handed to \<^verbatim>\<open>console.print\<close>, directly or as the body of a \<^verbatim>\<open>Panel\<close>, with the
  values the f-strings of the source put in. The bullet and the check mark, one
  character each in Python, are one element each here. The titles of the panels are
  fixed texts of one matched pair of tags and play no part.
\<close>

abbreviation (input) bullet :: char where "bullet \<equiv> CHR 0x95"
abbreviation (input) check_mark :: char where "check_mark \<equiv> CHR 0x96"

fun markup :: "env \<Rightarrow> message \<Rightarrow> string" where
  "markup e InvalidRulePathFormat =
     ''[red]Invalid rule path format.[/red]\<newline>\<newline>'' @
     ''Expected format: [bold]category/framework[/bold]\<newline>'' @
     ''Examples:\<newline>'' @
     ''  '' @ [bullet] @ '' backend/django\<newline>'' @
     ''  '' @ [bullet] @ '' backend/fastapi\<newline>'' @
     ''  '' @ [bullet] @ '' frontend/nextjs''"
| "markup e (GeneralRuleNotFound general_rule_source) =
     ''[red]General rule not found:[/red] '' @ str_source e general_rule_source @
     ''\<newline>\<newline>'' @
     ''Available categories: backend, frontend''"
| "markup e (FrameworkRuleNotFound specific_rule_source category) =
     ''[red]Framework rule not found:[/red] '' @ str_source e specific_rule_source @
     ''\<newline>\<newline>'' @
     ''Available frameworks for [bold]'' @ category @ ''[/bold]:\<newline>'' @
     ''  '' @ [bullet] @ '' Check the cursor_dev_rules/rules/'' @ category @ ''/ directory''"
| "markup e (ErrorCopyingFile dest text) =
     ''[red]Error copying file to '' @ str_path dest @ '': '' @ text @ ''[/red]''"
| "markup e (CopiedGeneralRule rel) =
     ''[green]'' @ [check_mark] @ ''[/green] Copied general rule to [bold]'' @ str_rel rel @
     ''[/bold]''"
| "markup e (CopiedFrameworkRule framework rel) =
     ''[green]'' @ [check_mark] @ ''[/green] Copied '' @ framework @ '' rule to [bold]'' @
     str_rel rel @ ''[/bold]''"
| "markup e BlankLine = []"
| "markup e (SuccessfullyInstalled rule_path rel_general rel_specific) =
     ''[green]Successfully installed rules for [bold]'' @ rule_path @
     ''[/bold]![/green]\<newline>\<newline>'' @
     ''Rules are now available at:\<newline>'' @
     ''  '' @ [bullet] @ '' '' @ str_rel rel_general @ ''\<newline>'' @
     ''  '' @ [bullet] @ '' '' @ str_rel rel_specific"
| "markup e (CouldNotFindRulesDirectory text) =
     ''[red]Could not find rules directory:[/red] '' @ text @ ''\<newline>\<newline>'' @
     ''Make sure the package is properly installed.''"
| "markup e (UnexpectedError text) = ''[red]Unexpected error:[/red] '' @ text"

text \<open>
  How \<^verbatim>\<open>rich\<close> reads such a text (\<^verbatim>\<open>rich.markup.render\<close>). A tag is an opening bracket, a
  character out of \<^verbatim>\<open>a-z#/@\<close>, then anything but an opening bracket up to the first
  closing bracket. Backslashes in front of a tag escape it when their number is odd.
\<close>

definition tag_start :: "char \<Rightarrow> bool" where
  "tag_start c =
     ((97 \<le> (of_char c :: nat) \<and> (of_char c :: nat) \<le> 122)
      \<or> c = CHR ''#'' \<or> c = CHR ''/'' \<or> c = CHR ''@'')"

fun tag_rest :: "string \<Rightarrow> string option" where
  "tag_rest [] = None"
| "tag_rest (c # cs) =
     (if c = CHR '']'' then Some []
      else if c = CHR ''['' then None
      else map_option ((#) c) (tag_rest cs))"

fun match_tag :: "string \<Rightarrow> string option" where
  "match_tag [] = None"
| "match_tag (c # cs) = (if tag_start c then map_option ((#) c) (tag_rest cs) else None)"

text \<open>
  The tags of a text in their order, each with the position of its opening bracket:
  \<open>pos\<close> is the position of the next character, \<open>bs\<close> the number of backslashes just
  before it.
\<close>

function find_tags :: "nat \<Rightarrow> nat \<Rightarrow> string \<Rightarrow> (nat \<times> string) list" where
  "find_tags pos bs [] = []"
| "find_tags pos bs (c # cs) =
     (if c = CHR 0x5C then find_tags (Suc pos) (Suc bs) cs
      else if c = CHR ''['' then
        (case match_tag cs of
           None \<Rightarrow> find_tags (Suc pos) 0 cs
         | Some t \<Rightarrow>
             (if even bs then [(pos, t)] else []) @
             find_tags (pos + length t + 2) 0 (drop (Suc (length t)) cs))
      else find_tags (Suc pos) 0 cs)"
  by pat_completeness auto
termination
  by (relation "measure (\<lambda>(pos, bs, s). length s)") auto

text \<open>\<^verbatim>\<open>tag_text.partition("=")\<close>: the name of the tag and its parameters.\<close>

definition tag_name :: "string \<Rightarrow> string" where
  "tag_name t = takeWhile (\<lambda>c. c \<noteq> CHR ''='') t"

definition tag_parameters :: "string \<Rightarrow> string option" where
  "tag_parameters t =
     (if CHR ''='' \<in> set t then Some (tl (dropWhile (\<lambda>c. c \<noteq> CHR ''='') t)) else None)"

text \<open>\<^verbatim>\<open>str.strip()\<close>.\<close>

definition isspace :: "char \<Rightarrow> bool" where
  "isspace c =
     (c = CHR '' '' \<or> (9 \<le> (of_char c :: nat) \<and> (of_char c :: nat) \<le> 13)
      \<or> (28 \<le> (of_char c :: nat) \<and> (of_char c :: nat) \<le> 31))"

definition strip :: "string \<Rightarrow> string" where
  "strip s = rev (dropWhile isspace (rev (dropWhile isspace s)))"

text \<open>\<^verbatim>\<open>str(n)\<close> for a position.\<close>

definition digit :: "nat \<Rightarrow> char" where
  "digit n = char_of (48 + n)"

function str_nat :: "nat \<Rightarrow> string" where
  "str_nat n = (if n < 10 then [digit n] else str_nat (n div 10) @ [digit (n mod 10)])"
  by pat_completeness auto
termination
  by (relation "measure id") auto

declare str_nat.simps [simp del]

text \<open>
  The stack of open tags, the last opened first, each with its normalized name and its
  parameters. \<^verbatim>\<open>pop_style\<close> takes out the last opened tag of a given name.
\<close>

type_synonym tag = "string \<times> string option"

fun pop_style :: "string \<Rightarrow> tag list \<Rightarrow> (tag \<times> tag list) option" where
  "pop_style style_name [] = None"
| "pop_style style_name (t # ts) =
     (if fst t = style_name then Some (t, ts)
      else map_option (\<lambda>(u, rest). (u, t # rest)) (pop_style style_name ts))"

text \<open>Closing a handler tag evaluates its parameters.\<close>

definition close_error :: "env \<Rightarrow> tag \<Rightarrow> string option" where
  "close_error e open_tag =
     (case snd open_tag of
        None \<Rightarrow> None
      | Some parameters \<Rightarrow>
          if take 1 (fst open_tag) = ''@'' \<and> parameters \<noteq> [] then handler_error e parameters
          else None)"

text \<open>
  The loop of \<^verbatim>\<open>render\<close> over the tags: the text of the \<^verbatim>\<open>MarkupError\<close> it raises, or
  \<open>None\<close> when it returns. Tags left open at the end are closed silently.
\<close>

fun render_tags :: "env \<Rightarrow> tag list \<Rightarrow> (nat \<times> string) list \<Rightarrow> string option" where
  "render_tags e style_stack [] = None"
| "render_tags e style_stack ((position, t) # ts) =
     (if take 1 (tag_name t) = ''/'' then
        (let style_name = strip (tl (tag_name t))
         in if style_name \<noteq> [] then
              (case pop_style (style_normalize e style_name) style_stack of
                 None \<Rightarrow>
                   Some (''closing tag '' @ [CHR 0x27] @ ''['' @ t @ '']'' @ [CHR 0x27] @
                         '' at position '' @ str_nat position @
                         '' doesn't match any open tag'')
               | Some (open_tag, rest) \<Rightarrow>
                   (case close_error e open_tag of
                      Some m \<Rightarrow> Some m
                    | None \<Rightarrow> render_tags e rest ts))
            else
              (case style_stack of
                 [] \<Rightarrow>
                   Some (''closing tag '[/]' at position '' @ str_nat position @
                         '' has nothing to close'')
               | open_tag # rest \<Rightarrow>
                   (case close_error e open_tag of
                      Some m \<Rightarrow> Some m
                    | None \<Rightarrow> render_tags e rest ts)))
      else render_tags e ((style_normalize e (tag_name t), tag_parameters t) # style_stack) ts)"

definition markup_error :: "env \<Rightarrow> string \<Rightarrow> string option" where
  "markup_error e text = render_tags e [] (find_tags 0 0 text)"

text \<open>
  \<^verbatim>\<open>console.print\<close>: the text is rendered before anything is written, so a
  \<^verbatim>\<open>MarkupError\<close> leaves the console as it was.
\<close>

definition console_print :: "env \<Rightarrow> message \<Rightarrow> state \<Rightarrow> (exn + unit) \<times> state" where
  "console_print e m s =
     (case markup_error e (markup e m) of
        Some text \<Rightarrow> (Inl (MarkupError text), s)
      | None \<Rightarrow> (Inr (), s\<lparr>console := console s @ [m]\<rparr>))"

text \<open>\<^verbatim>\<open>console.print(...)\<close> followed by \<^verbatim>\<open>raise\<close>.\<close>

definition print_then_raise :: "env \<Rightarrow> message \<Rightarrow> exn \<Rightarrow> state \<Rightarrow> (exn + 'a) \<times> state" where
  "print_then_raise e m x s =
     (case console_print e m s of
        (Inl y, s') \<Rightarrow> (Inl y, s')
      | (Inr u, s') \<Rightarrow> (Inl x, s'))"


section \<open>Library operations\<close>

text \<open>\<^verbatim>\<open>str.split(sep)\<close> with a one-character separator.\<close>

fun split_str :: "char \<Rightarrow> string \<Rightarrow> string list" where
  "split_str sep [] = [[]]"
| "split_str sep (c # cs) =
     (if c = sep then [] # split_str sep cs
      else (case split_str sep cs of
              [] \<Rightarrow> [[c]]
            | x # xs \<Rightarrow> (c # x) # xs))"

text \<open>
  \<^verbatim>\<open>path / segment\<close> for a segment without a slash: \<^verbatim>\<open>pathlib\<close> drops an empty segment
  and a \<^verbatim>\<open>.\<close> and appends any other, a \<^verbatim>\<open>..\<close> too.
\<close>

definition path_join :: "path \<Rightarrow> string \<Rightarrow> path" where
  "path_join p seg = (if seg = [] \<or> seg = ''.'' then p else p @ [seg])"

fun truediv :: "source \<Rightarrow> string \<Rightarrow> exn + source" where
  "truediv (PathSrc p) seg = Inr (PathSrc (path_join p seg))"
| "truediv (Traversable p) seg = Inr (Traversable (path_join p seg))"
| "truediv Opaque seg =
     Inl (TypeError (''unsupported operand type(s) for /: 'object' and 'str'' @ [CHR 0x27]))"

fun joinpath :: "source \<Rightarrow> string list \<Rightarrow> exn + source" where
  "joinpath src [] = Inr src"
| "joinpath src (seg # segs) =
     (case truediv src seg of
        Inl e \<Rightarrow> Inl e
      | Inr src' \<Rightarrow> joinpath src' segs)"

text \<open>
  What the file system holds under a name: the root is a directory, every other name
  is looked up as it is.
\<close>

definition entry :: "filesys \<Rightarrow> path \<Rightarrow> node option" where
  "entry f p = (if p = [] then Some Dir else f p)"

text \<open>
  How the operating system follows a path, component by component, from the directory
  \<open>cur\<close>: a component is looked up in a directory only, and \<^verbatim>\<open>..\<close> leads to the parent,
  which for the root is the root. The result is the name of the place reached, whether
  or not anything is there.
\<close>

fun walk :: "filesys \<Rightarrow> path \<Rightarrow> string list \<Rightarrow> errno + path" where
  "walk f cur [] = Inr cur"
| "walk f cur (c # cs) =
     (case entry f cur of
        None \<Rightarrow> Inl ENOENT
      | Some (File b) \<Rightarrow> Inl ENOTDIR
      | Some Dir \<Rightarrow> walk f (if c = ''..'' then butlast cur else cur @ [c]) cs)"

definition node_at :: "filesys \<Rightarrow> path \<Rightarrow> node option" where
  "node_at f p = (case walk f [] p of Inl err \<Rightarrow> None | Inr q \<Rightarrow> entry f q)"

fun node_of :: "env \<Rightarrow> filesys \<Rightarrow> source \<Rightarrow> node option" where
  "node_of e f (PathSrc p) = node_at f p"
| "node_of e f (Traversable p) = package_data e p"
| "node_of e f Opaque = None"

definition is_dir :: "env \<Rightarrow> filesys \<Rightarrow> source \<Rightarrow> bool" where
  "is_dir e f src = (case node_of e f src of Some Dir \<Rightarrow> True | _ \<Rightarrow> False)"

definition is_file :: "env \<Rightarrow> filesys \<Rightarrow> source \<Rightarrow> bool" where
  "is_file e f src = (case node_of e f src of Some (File c) \<Rightarrow> True | _ \<Rightarrow> False)"

definition exists_src :: "env \<Rightarrow> filesys \<Rightarrow> source \<Rightarrow> bool" where
  "exists_src e f src = (case node_of e f src of Some n \<Rightarrow> True | None \<Rightarrow> False)"

text \<open>The exception Python raises for an error number, with the file name it was met at.\<close>

definition os_error :: "env \<Rightarrow> errno \<Rightarrow> string \<Rightarrow> exn" where
  "os_error e err name =
     (if err = ENOENT then FileNotFoundError (strerror e err name)
      else OSError (strerror e err name))"

definition read_bytes :: "env \<Rightarrow> filesys \<Rightarrow> source \<Rightarrow> exn + bytes" where
  "read_bytes e f src =
     (case src of
        Opaque \<Rightarrow> Inl (AttributeError (CHR 0x27 # ''object' object has no attribute 'read_bytes'' @ [CHR 0x27]))
      | Traversable p \<Rightarrow>
          (case package_data e p of
             Some (File c) \<Rightarrow> Inr c
           | Some Dir \<Rightarrow> Inl (os_error e EISDIR (str_object e src))
           | None \<Rightarrow> Inl (os_error e ENOENT (str_object e src)))
      | PathSrc p \<Rightarrow>
          (case walk f [] p of
             Inl err \<Rightarrow> Inl (os_error e err (str_path p))
           | Inr q \<Rightarrow>
               (case entry f q of
                  Some (File c) \<Rightarrow>
                    if denied e q then Inl (os_error e EACCES (str_path p)) else Inr c
                | Some Dir \<Rightarrow> Inl (os_error e EISDIR (str_path p))
                | None \<Rightarrow> Inl (os_error e ENOENT (str_path p)))))"

text \<open>
  \<^verbatim>\<open>Path.mkdir(parents=True, exist_ok=True)\<close>: every missing directory on the way is
  created, an existing directory is accepted, a regular file on the way is an error
  that names the whole path. The directories created before an error stay.

  The paths the program creates and writes are the two destinations, built from the
  working directory, which the operating system names without \<^verbatim>\<open>..\<close>; they are taken
  as they are.
\<close>

fun mkdirs :: "env \<Rightarrow> filesys \<Rightarrow> path \<Rightarrow> string list \<Rightarrow> exn option \<times> filesys" where
  "mkdirs e f pre [] = (None, f)"
| "mkdirs e f pre (c # cs) =
     (case f (pre @ [c]) of
        Some Dir \<Rightarrow> mkdirs e f (pre @ [c]) cs
      | Some (File b) \<Rightarrow>
          (Some (os_error e (if cs = [] then EEXIST else ENOTDIR) (str_path (pre @ c # cs))), f)
      | None \<Rightarrow>
          if denied e (pre @ [c]) then (Some (os_error e EACCES (str_path (pre @ [c]))), f)
          else mkdirs e (f(pre @ [c] \<mapsto> Dir)) (pre @ [c]) cs)"

definition mkdir_parents :: "env \<Rightarrow> filesys \<Rightarrow> path \<Rightarrow> exn option \<times> filesys" where
  "mkdir_parents e f p = mkdirs e f [] p"

text \<open>\<^verbatim>\<open>Path.write_bytes\<close>: the file is created or truncated, then written.\<close>

definition write_bytes :: "env \<Rightarrow> filesys \<Rightarrow> path \<Rightarrow> bytes \<Rightarrow> exn + filesys" where
  "write_bytes e f p c =
     (case entry f (butlast p) of
        None \<Rightarrow> Inl (os_error e ENOENT (str_path p))
      | Some (File b) \<Rightarrow> Inl (os_error e ENOTDIR (str_path p))
      | Some Dir \<Rightarrow>
          (case entry f p of
             Some Dir \<Rightarrow> Inl (os_error e EISDIR (str_path p))
           | _ \<Rightarrow>
               if denied e p then Inl (os_error e EACCES (str_path p))
               else Inr (f(p \<mapsto> File c))))"

text \<open>
  \<^verbatim>\<open>shutil.copy2(src, dst)\<close>: a directory as destination receives the file under the
  source's name; copying a file onto itself is an error.
\<close>

definition shutil_copy2 :: "env \<Rightarrow> filesys \<Rightarrow> source \<Rightarrow> path \<Rightarrow> exn + filesys" where
  "shutil_copy2 e f src dst =
     (case src of
        PathSrc p \<Rightarrow>
          (case read_bytes e f src of
             Inl x \<Rightarrow> Inl x
           | Inr c \<Rightarrow>
               (let target = (if entry f dst = Some Dir then dst @ [last p] else dst)
                in if walk f [] p = Inr target then Inl (OSError ''are the same file'')
                   else write_bytes e f target c))
      | _ \<Rightarrow> Inl (TypeError ''expected str, bytes or os.PathLike object''))"


section \<open>The resource locator\<close>

text \<open>
  The body of the \<^verbatim>\<open>try\<close> of lines 21 to 29: \<open>Inr (Some r)\<close> is \<^verbatim>\<open>return r\<close>, \<open>Inr None\<close> is
  leaving the block without a return, \<open>Inl x\<close> is an exception.
\<close>

definition get_rules_path_try :: "env \<Rightarrow> filesys \<Rightarrow> exn + source option" where
  "get_rules_path_try e f =
     (case resource_files e of
        Inl x \<Rightarrow> Inl x
      | Inr package_ref \<Rightarrow>
          (case truediv package_ref ''rules'' of
             Inl x \<Rightarrow> Inl x
           | Inr rules_ref \<Rightarrow>
               if hasattr rules_ref ''is_dir'' \<and> is_dir e f rules_ref then Inr (Some rules_ref)
               else if isinstance_Path rules_ref \<and> exists_src e f rules_ref \<and> is_dir e f rules_ref
               then Inr (Some rules_ref)
               else Inr None))"

definition get_rules_path :: "env \<Rightarrow> filesys \<Rightarrow> exn + source" where
  "get_rules_path e f =
     (case (case get_rules_path_try e f of
              Inl x \<Rightarrow>
                if isinstance_lookup_error x then Inr None
                else if isinstance_Exception x then Inr None
                else Inl x
            | Inr r \<Rightarrow> Inr r) of
        Inl x \<Rightarrow> Inl x
      | Inr (Some r) \<Rightarrow> Inr r
      | Inr None \<Rightarrow>
          (let rules_path = PathSrc (path_join (package_dir e) ''rules'')
           in if exists_src e f rules_path \<and> is_dir e f rules_path then Inr rules_path
              else
                (let project_root = butlast (package_dir e);
                     rules_path = PathSrc (path_join project_root ''rules'')
                 in if exists_src e f rules_path \<and> is_dir e f rules_path then Inr rules_path
                    else Inl (FileNotFoundError ''Could not find rules directory''))))"


section \<open>The file copier\<close>

text \<open>The body of the \<^verbatim>\<open>try\<close> of lines 57 to 73.\<close>

definition copy_rule_file_try :: "env \<Rightarrow> source \<Rightarrow> path \<Rightarrow> filesys \<Rightarrow> (exn + bool) \<times> filesys" where
  "copy_rule_file_try e src dest f =
     (case mkdir_parents e f (butlast dest) of
        (Some x, f1) \<Rightarrow> (Inl x, f1)
      | (None, f1) \<Rightarrow>
          if hasattr src ''read_bytes'' then
            (case read_bytes e f1 src of
               Inl x \<Rightarrow> (Inl x, f1)
             | Inr content \<Rightarrow>
                 (case write_bytes e f1 dest content of
                    Inl x \<Rightarrow> (Inl x, f1)
                  | Inr f2 \<Rightarrow> (Inr True, f2)))
          else if isinstance_Path src then
            (case shutil_copy2 e f1 src dest of
               Inl x \<Rightarrow> (Inl x, f1)
             | Inr f2 \<Rightarrow> (Inr True, f2))
          else
            (case read_bytes e f1 src of
               Inl x \<Rightarrow> (Inl x, f1)
             | Inr content \<Rightarrow>
                 (case write_bytes e f1 dest content of
                    Inl x \<Rightarrow> (Inl x, f1)
                  | Inr f2 \<Rightarrow> (Inr True, f2))))"

text \<open>
  The function with its handler (lines 74 to 76). The \<^verbatim>\<open>console.print\<close> of the handler is
  outside the \<^verbatim>\<open>try\<close>: what it raises leaves the function.
\<close>

definition copy_rule_file :: "env \<Rightarrow> source \<Rightarrow> path \<Rightarrow> state \<Rightarrow> (exn + bool) \<times> state" where
  "copy_rule_file e src dest s =
     (let s0 = record_event (CopyRuleFile src dest) s
      in case copy_rule_file_try e src dest (fs s0) of
           (Inr b, f') \<Rightarrow> (Inr b, s0\<lparr>fs := f'\<rparr>)
         | (Inl x, f') \<Rightarrow>
             if isinstance_Exception x
             then (case console_print e (ErrorCopyingFile dest (str_exn x)) (s0\<lparr>fs := f'\<rparr>) of
                     (Inl y, s1) \<Rightarrow> (Inl y, s1)
                   | (Inr u, s1) \<Rightarrow> (Inr False, s1))
             else (Inl x, s0\<lparr>fs := f'\<rparr>))"


section \<open>The fetch command\<close>

text \<open>The existence check of lines 135 to 142, and again of lines 144 to 151.\<close>

definition rule_exists :: "env \<Rightarrow> source \<Rightarrow> state \<Rightarrow> bool \<times> state" where
  "rule_exists e src s =
     (if hasattr src ''is_file'' then (is_file e (fs s) src, record_event (IsFile src) s)
      else if isinstance_Path src
      then (exists_src e (fs s) src \<and> is_file e (fs s) src, record_event (IsFile src) s)
      else (False, s))"

text \<open>\<^verbatim>\<open>dest.relative_to(cwd)\<close>, for a destination built from \<^verbatim>\<open>cwd\<close>.\<close>

definition relative_to :: "path \<Rightarrow> path \<Rightarrow> path" where
  "relative_to p base = drop (length base) p"

text \<open>
  The body of the \<^verbatim>\<open>try\<close> of lines 94 to 211. The progress display shows the three task
  descriptions only; no description holds a closing tag, since the framework name
  holds no slash, so the display raises nothing and is left out.
\<close>

definition fetch_try :: "env \<Rightarrow> string \<Rightarrow> state \<Rightarrow> (exn + unit) \<times> state" where
  "fetch_try e rule_path s =
     (let parts = split_str CHR ''/'' rule_path
      in if length parts \<noteq> 2 then print_then_raise e InvalidRulePathFormat Abort s
         else
          (case parts of
             [category, framework] \<Rightarrow>
              (case getcwd e of
                 Inl x \<Rightarrow> (Inl x, s)
               | Inr cwd \<Rightarrow>
                  (let cursor_rules_dir = path_join (path_join cwd ''.cursor'') ''rules''
                   in case get_rules_path e (fs s) of
                        Inl x \<Rightarrow> (Inl x, s)
                      | Inr rules_path \<Rightarrow>
                         (case joinpath rules_path [category, ''general'', ''RULE.md''] of
                            Inl x \<Rightarrow> (Inl x, s)
                          | Inr general_rule_source \<Rightarrow>
                             (case joinpath rules_path [category, framework, ''RULE.md''] of
                                Inl x \<Rightarrow> (Inl x, s)
                              | Inr specific_rule_source \<Rightarrow>
                                 (case rule_exists e general_rule_source s of
                                    (general_exists, s1) \<Rightarrow>
                                  (case rule_exists e specific_rule_source s1 of
                                    (specific_exists, s2) \<Rightarrow>
                                   if \<not> general_exists
                                   then print_then_raise e
                                          (GeneralRuleNotFound general_rule_source) Abort s2
                                   else if \<not> specific_exists
                                   then print_then_raise e
                                          (FrameworkRuleNotFound specific_rule_source category)
                                          Abort s2
                                   else
                                    (let general_dest =
                                           path_join (path_join cursor_rules_dir ''general'') ''RULE.md''
                                     in case copy_rule_file e general_rule_source general_dest s2 of
                                          (Inl x, s3) \<Rightarrow> (Inl x, s3)
                                        | (Inr False, s3) \<Rightarrow> (Inl Abort, s3)
                                        | (Inr True, s3) \<Rightarrow>
                                  (case console_print e
                                          (CopiedGeneralRule (relative_to general_dest cwd)) s3 of
                                     (Inl x, s4) \<Rightarrow> (Inl x, s4)
                                   | (Inr u, s4) \<Rightarrow>
                                    (let specific_dest =
                                           path_join (path_join cursor_rules_dir ''code-patterns'')
                                             ''RULE.md''
                                     in case copy_rule_file e specific_rule_source specific_dest s4 of
                                          (Inl x, s5) \<Rightarrow> (Inl x, s5)
                                        | (Inr False, s5) \<Rightarrow> (Inl Abort, s5)
                                        | (Inr True, s5) \<Rightarrow>
                                  (case console_print e
                                          (CopiedFrameworkRule framework
                                             (relative_to specific_dest cwd)) s5 of
                                     (Inl x, s6) \<Rightarrow> (Inl x, s6)
                                   | (Inr u, s6) \<Rightarrow>
                                  (case console_print e BlankLine s6 of
                                     (Inl x, s7) \<Rightarrow> (Inl x, s7)
                                   | (Inr u, s7) \<Rightarrow>
                                      console_print e
                                        (SuccessfullyInstalled rule_path
                                           (path_join (path_join
                                              (relative_to cursor_rules_dir cwd)
                                              ''general'') ''RULE.md'')
                                           (path_join (path_join
                                              (relative_to cursor_rules_dir cwd)
                                              ''code-patterns'') ''RULE.md''))
                                        s7)))))))))))
           | _ \<Rightarrow> (Inl (ValueError ''not enough values to unpack''), s)))"

text \<open>
  The command with its handlers (lines 213 to 231). An exception raised inside a
  handler is not caught by the handler next to it: a handler ends the command with
  \<^verbatim>\<open>click.Abort\<close>, or with what its own \<^verbatim>\<open>console.print\<close> raises.
\<close>

definition fetch :: "env \<Rightarrow> string \<Rightarrow> state \<Rightarrow> (exn + unit) \<times> state" where
  "fetch e rule_path s =
     (case fetch_try e rule_path s of
        (Inr u, s') \<Rightarrow> (Inr u, s')
      | (Inl x, s') \<Rightarrow>
          if isinstance_FileNotFoundError x
          then print_then_raise e (CouldNotFindRulesDirectory (str_exn x)) Abort s'
          else if isinstance_Exception x
          then print_then_raise e (UnexpectedError (str_exn x)) Abort s'
          else (Inl x, s'))"

text \<open>
  The exit status \<^verbatim>\<open>click\<close> gives the process: 0 when the command returns, 1 when it
  ends with an exception.
\<close>

fun exit_code :: "(exn + unit) \<times> state \<Rightarrow> nat" where
  "exit_code (Inr u, s) = 0"
| "exit_code (Inl x, s) = 1"


section \<open>Conditions on the surroundings\<close>

text \<open>A message renders when \<^verbatim>\<open>console.print\<close> raises nothing on it.\<close>

definition renders :: "env \<Rightarrow> message \<Rightarrow> bool" where
  "renders e m = (markup_error e (markup e m) = None)"

text \<open>
  The exception \<^verbatim>\<open>console.print\<close> raises on a message that does not render, and the
  message the copier prints when its body raised.
\<close>

definition print_failure :: "env \<Rightarrow> message \<Rightarrow> exn" where
  "print_failure e m = MarkupError (the (markup_error e (markup e m)))"

definition copy_message :: "env \<Rightarrow> source \<Rightarrow> path \<Rightarrow> filesys \<Rightarrow> message" where
  "copy_message e src dest f =
     ErrorCopyingFile dest
       (case fst (copy_rule_file_try e src dest f) of Inl x \<Rightarrow> str_exn x | Inr b \<Rightarrow> [])"

text \<open>
  A file system keeps another when every directory of the other is still a directory
  and every file still a file, whatever it holds. Creating directories and writing
  files where no directory is lead to such a file system.
\<close>

definition keeps :: "filesys \<Rightarrow> filesys \<Rightarrow> bool" where
  "keeps f f' =
     (\<forall>q. (f q = Some Dir \<longrightarrow> f' q = Some Dir)
        \<and> (\<forall>c. f q = Some (File c) \<longrightarrow> (\<exists>c'. f' q = Some (File c'))))"

text \<open>The place a \<^verbatim>\<open>pathlib.Path\<close> handle leads to, when the way to it can be followed.\<close>

fun locate :: "filesys \<Rightarrow> source \<Rightarrow> path option" where
  "locate f (PathSrc p) = (case walk f [] p of Inr q \<Rightarrow> Some q | Inl err \<Rightarrow> None)"
| "locate f src = None"

text \<open>
  A path blocks the creation of a directory when a regular file is there, or when
  nothing is there and the operating system refuses to create it. The way to a
  directory is free when none of the paths leading to it blocks.
\<close>

definition blocked :: "env \<Rightarrow> filesys \<Rightarrow> path \<Rightarrow> bool" where
  "blocked e f q = (case f q of Some Dir \<Rightarrow> False | Some (File b) \<Rightarrow> True | None \<Rightarrow> denied e q)"

fun free_way :: "env \<Rightarrow> filesys \<Rightarrow> path \<Rightarrow> string list \<Rightarrow> bool" where
  "free_way e f pre [] = True"
| "free_way e f pre (c # cs) = (\<not> blocked e f (pre @ [c]) \<and> free_way e f (pre @ [c]) cs)"

text \<open>
  A destination can be written when the way to its parent is free, it is not itself a
  directory and the operating system does not refuse it; a copy can be made when, in
  addition, the source can be read once the directories above the destination are
  there.
\<close>

definition writable :: "env \<Rightarrow> filesys \<Rightarrow> path \<Rightarrow> bool" where
  "writable e f dest =
     (dest \<noteq> [] \<and> free_way e f [] (butlast dest) \<and> f dest \<noteq> Some Dir \<and> \<not> denied e dest)"

definition can_copy :: "env \<Rightarrow> filesys \<Rightarrow> source \<Rightarrow> path \<Rightarrow> bool" where
  "can_copy e f src dest =
     (writable e f dest
      \<and> (case read_bytes e (snd (mkdirs e f [] (butlast dest))) src of
           Inr c \<Rightarrow> True
         | Inl x \<Rightarrow> False))"

text \<open>The messages of the four failure paths the command itself detects.\<close>

fun is_specific_error :: "message \<Rightarrow> bool" where
  "is_specific_error InvalidRulePathFormat = True"
| "is_specific_error (GeneralRuleNotFound src) = True"
| "is_specific_error (FrameworkRuleNotFound src c) = True"
| "is_specific_error (ErrorCopyingFile d m) = True"
| "is_specific_error m = False"

text \<open>Every directory on the way is there.\<close>

fun dirs_exist :: "filesys \<Rightarrow> path \<Rightarrow> string list \<Rightarrow> bool" where
  "dirs_exist f pre [] = True"
| "dirs_exist f pre (c # cs) = (f (pre @ [c]) = Some Dir \<and> dirs_exist f (pre @ [c]) cs)"

text \<open>
  The locator as the specification words it: the candidates in their order, a failed
  package lookup giving no candidate, and the first candidate that is a directory.
\<close>

definition locator_candidates :: "env \<Rightarrow> source list" where
  "locator_candidates e =
     (case resource_files e of
        Inl x \<Rightarrow> []
      | Inr package_ref \<Rightarrow>
          (case truediv package_ref ''rules'' of Inl x \<Rightarrow> [] | Inr rules_ref \<Rightarrow> [rules_ref]))
     @ [PathSrc (package_dir e @ [''rules'']),
        PathSrc (butlast (package_dir e) @ [''rules''])]"

definition locator_spec :: "env \<Rightarrow> filesys \<Rightarrow> exn + source" where
  "locator_spec e f =
     (case find (is_dir e f) (locator_candidates e) of
        Some r \<Rightarrow> Inr r
      | None \<Rightarrow> Inl (FileNotFoundError ''Could not find rules directory''))"

text \<open>The two destinations below the working directory.\<close>

definition general_dest :: "path \<Rightarrow> path" where
  "general_dest cwd = cwd @ [''.cursor'', ''rules'', ''general'', ''RULE.md'']"

definition specific_dest :: "path \<Rightarrow> path" where
  "specific_dest cwd = cwd @ [''.cursor'', ''rules'', ''code-patterns'', ''RULE.md'']"

text \<open>
  The copy stage of \<^verbatim>\<open>fetch\<close> on its own (lines 178 to 211), entered once both rule
  files are known to exist.
\<close>

definition fetch_copy ::
  "env \<Rightarrow> string \<Rightarrow> string \<Rightarrow> path \<Rightarrow> source \<Rightarrow> source \<Rightarrow> state \<Rightarrow> (exn + unit) \<times> state" where
  "fetch_copy e rule_path framework cwd general_rule_source specific_rule_source s2 =
     (case copy_rule_file e general_rule_source (general_dest cwd) s2 of
        (Inl x, s3) \<Rightarrow> (Inl x, s3)
      | (Inr False, s3) \<Rightarrow> (Inl Abort, s3)
      | (Inr True, s3) \<Rightarrow>
          (case console_print e
                  (CopiedGeneralRule [''.cursor'', ''rules'', ''general'', ''RULE.md'']) s3 of
             (Inl x, s4) \<Rightarrow> (Inl x, s4)
           | (Inr u, s4) \<Rightarrow>
               (case copy_rule_file e specific_rule_source (specific_dest cwd) s4 of
                  (Inl x, s5) \<Rightarrow> (Inl x, s5)
                | (Inr False, s5) \<Rightarrow> (Inl Abort, s5)
                | (Inr True, s5) \<Rightarrow>
                    (case console_print e
                            (CopiedFrameworkRule framework
                               [''.cursor'', ''rules'', ''code-patterns'', ''RULE.md'']) s5 of
                       (Inl x, s6) \<Rightarrow> (Inl x, s6)
                     | (Inr u, s6) \<Rightarrow>
                         (case console_print e BlankLine s6 of
                            (Inl x, s7) \<Rightarrow> (Inl x, s7)
                          | (Inr u, s7) \<Rightarrow>
                              console_print e
                                (SuccessfullyInstalled rule_path
                                   [''.cursor'', ''rules'', ''general'', ''RULE.md'']
                                   [''.cursor'', ''rules'', ''code-patterns'', ''RULE.md''])
                                s7)))))"

text \<open>
  The file system the copy stage leaves: the general copy, and after it the specific
  copy when the general copy returned true.
\<close>

definition copy_both :: "env \<Rightarrow> source \<Rightarrow> source \<Rightarrow> path \<Rightarrow> filesys \<Rightarrow> filesys" where
  "copy_both e g sp cwd f =
     (if fst (copy_rule_file_try e g (general_dest cwd) f) = Inr True
      then snd (copy_rule_file_try e sp (specific_dest cwd)
                  (snd (copy_rule_file_try e g (general_dest cwd) f)))
      else snd (copy_rule_file_try e g (general_dest cwd) f))"


section \<open>A concrete installation\<close>

text \<open>
  The tool lives in \<^verbatim>\<open>/opt/tool\<close> with the rule tree of the test fixture below it; the
  project is the empty directory \<^verbatim>\<open>/proj\<close>.
\<close>

definition demo_fs :: filesys where
  "demo_fs = map_of
     [([''opt''], Dir),
      ([''opt'', ''tool''], Dir),
      ([''opt'', ''tool'', ''rules''], Dir),
      ([''opt'', ''tool'', ''rules'', ''backend''], Dir),
      ([''opt'', ''tool'', ''rules'', ''backend'', ''general''], Dir),
      ([''opt'', ''tool'', ''rules'', ''backend'', ''general'', ''RULE.md''],
         File ''# Backend General Rule''),
      ([''opt'', ''tool'', ''rules'', ''backend'', ''django''], Dir),
      ([''opt'', ''tool'', ''rules'', ''backend'', ''django'', ''RULE.md''],
         File ''# Django Rule''),
      ([''proj''], Dir)]"

text \<open>
  The open functions as Python on Linux and \<^verbatim>\<open>rich\<close> have them on the texts met here: the
  error text for a file name that needs no escaping, and the normalized name of a tag
  that is one attribute, under its short or its long name, one colour, or no style at
  all. No handler tag is met.
\<close>

definition linux_strerror :: "errno \<Rightarrow> string \<Rightarrow> string" where
  "linux_strerror err name =
     (case err of
        ENOENT \<Rightarrow> ''[Errno 2] No such file or directory: ''
      | ENOTDIR \<Rightarrow> ''[Errno 20] Not a directory: ''
      | EISDIR \<Rightarrow> ''[Errno 21] Is a directory: ''
      | EEXIST \<Rightarrow> ''[Errno 17] File exists: ''
      | EACCES \<Rightarrow> ''[Errno 13] Permission denied: '')
     @ [CHR 0x27] @ name @ [CHR 0x27]"

definition lower :: "char \<Rightarrow> char" where
  "lower c =
     (if 65 \<le> (of_char c :: nat) \<and> (of_char c :: nat) \<le> 90
      then char_of ((of_char c :: nat) + 32) else c)"

definition attribute_names :: "(string \<times> string) list" where
  "attribute_names =
     [(''d'', ''dim''), (''b'', ''bold''), (''i'', ''italic''), (''u'', ''underline''),
      (''r'', ''reverse''), (''c'', ''conceal''), (''s'', ''strike''),
      (''uu'', ''underline2''), (''o'', ''overline'')]"

definition plain_normalize :: "string \<Rightarrow> string" where
  "plain_normalize name =
     (let n = map lower (strip name)
      in case map_of attribute_names n of Some full \<Rightarrow> full | None \<Rightarrow> n)"

definition demo_env :: env where
  "demo_env =
     \<lparr>resource_files = Inr (PathSrc [''opt'', ''tool'']),
      package_data = Map.empty,
      package_dir = [''opt'', ''tool''],
      getcwd = Inr [''proj''],
      denied = (\<lambda>p. False),
      strerror = linux_strerror,
      str_object = (\<lambda>src. ''<object object>''),
      style_normalize = plain_normalize,
      handler_error = (\<lambda>parameters. None)\<rparr>"

definition demo_state :: state where
  "demo_state = \<lparr>fs = demo_fs, console = [], trace = []\<rparr>"




text \<open>A project that already holds both destination files, with other contents.\<close>

definition stale_state :: state where
  "stale_state =
     \<lparr>fs = demo_fs([''proj'', ''.cursor''] \<mapsto> Dir,
                    [''proj'', ''.cursor'', ''rules''] \<mapsto> Dir,
                    [''proj'', ''.cursor'', ''rules'', ''general''] \<mapsto> Dir,
                    [''proj'', ''.cursor'', ''rules'', ''general'', ''RULE.md'']
                       \<mapsto> File ''# Old General Rule'',
                    [''proj'', ''.cursor'', ''rules'', ''code-patterns''] \<mapsto> Dir,
                    [''proj'', ''.cursor'', ''rules'', ''code-patterns'', ''RULE.md'']
                       \<mapsto> File ''# Old Django Rule''),
      console = [], trace = []\<rparr>"

text \<open>
  A rule tree with a category named \<^verbatim>\<open>x[\<close>, which holds a general rule and no framework
  \<^verbatim>\<open>y]\<close>.
\<close>

definition bracket_state :: state where
  "bracket_state =
     \<lparr>fs = demo_fs([''opt'', ''tool'', ''rules'', ''x[''] \<mapsto> Dir,
                    [''opt'', ''tool'', ''rules'', ''x['', ''general''] \<mapsto> Dir,
                    [''opt'', ''tool'', ''rules'', ''x['', ''general'', ''RULE.md'']
                       \<mapsto> File ''# General Rule''),
      console = [], trace = []\<rparr>"

text \<open>An installation of the tool in a directory named \<^verbatim>\<open>tool[\<close>.\<close>

definition bracket_env :: env where
  "bracket_env =
     demo_env\<lparr>resource_files := Inr (PathSrc [''opt'', ''tool['']),
              package_dir := [''opt'', ''tool['']\<rparr>"

definition bracket_install :: state where
  "bracket_install =
     \<lparr>fs = demo_fs([''opt'', ''tool[''] \<mapsto> Dir,
                    [''opt'', ''tool['', ''rules''] \<mapsto> Dir),
      console = [], trace = []\<rparr>"


section \<open>Properties of the operations\<close>

subsection \<open>Creating directories\<close>

lemma mkdirs_None:
  "f (pre @ [c]) = None \<Longrightarrow>
   mkdirs e f pre (c # cs) =
     (if denied e (pre @ [c]) then (Some (os_error e EACCES (str_path (pre @ [c]))), f)
      else mkdirs e (f(pre @ [c] \<mapsto> Dir)) (pre @ [c]) cs)"
  by simp

lemma mkdirs_Dir:
  "f (pre @ [c]) = Some Dir \<Longrightarrow> mkdirs e f pre (c # cs) = mkdirs e f (pre @ [c]) cs"
  by simp

lemma mkdirs_File:
  "f (pre @ [c]) = Some (File b) \<Longrightarrow>
   mkdirs e f pre (c # cs) =
     (Some (os_error e (if cs = [] then EEXIST else ENOTDIR) (str_path (pre @ c # cs))), f)"
  by simp

lemma blocked_upd_other: "q \<noteq> p \<Longrightarrow> blocked e (f(p \<mapsto> n)) q = blocked e f q"
  by (simp add: blocked_def)

lemma free_way_upd:
  "length p \<le> length pre \<Longrightarrow> free_way e (f(p \<mapsto> n)) pre cs = free_way e f pre cs"
proof (induction cs arbitrary: pre)
  case Nil
  show "free_way e (f(p \<mapsto> n)) pre [] = free_way e f pre []" by simp
next
  case (Cons c cs)
  from Cons.prems have ne: "pre @ [c] \<noteq> p" by auto
  from Cons.prems have "length p \<le> length (pre @ [c])" by simp
  then have ih: "free_way e (f(p \<mapsto> n)) (pre @ [c]) cs = free_way e f (pre @ [c]) cs"
    by (rule Cons.IH)
  have b: "blocked e (f(p \<mapsto> n)) (pre @ [c]) = blocked e f (pre @ [c])"
    using ne by (rule blocked_upd_other)
  show "free_way e (f(p \<mapsto> n)) pre (c # cs) = free_way e f pre (c # cs)"
    unfolding free_way.simps ih b by (rule refl)
qed

lemma mkdirs_ok_iff: "fst (mkdirs e f pre cs) = None \<longleftrightarrow> free_way e f pre cs"
proof (induction cs arbitrary: f pre)
  case Nil
  then show ?case by simp
next
  case (Cons c cs)
  let ?q = "pre @ [c]"
  show ?case
  proof (cases "f ?q")
    case None
    have b: "blocked e f ?q = denied e ?q" using None by (simp add: blocked_def)
    have "(fst (mkdirs e (f(?q \<mapsto> Dir)) ?q cs) = None) = free_way e (f(?q \<mapsto> Dir)) ?q cs"
      by (rule Cons.IH)
    also have "\<dots> = free_way e f ?q cs" by (rule free_way_upd) simp
    finally show ?thesis
      unfolding mkdirs_None[where f=f and pre=pre and c=c, OF None] free_way.simps b by simp
  next
    case (Some m)
    show ?thesis
    proof (cases m)
      case (File b)
      with Some have s: "f ?q = Some (File b)" by simp
      then have "blocked e f ?q" by (simp add: blocked_def)
      then show ?thesis unfolding mkdirs_File[where f=f and pre=pre and c=c, OF s] by simp
    next
      case Dir
      with Some have s: "f ?q = Some Dir" by simp
      then have "\<not> blocked e f ?q" by (simp add: blocked_def)
      then show ?thesis unfolding mkdirs_Dir[where f=f and pre=pre and c=c, OF s] using Cons.IH[of f ?q] by simp
    qed
  qed
qed

lemma mkdirs_preserve: "f q = Some n \<Longrightarrow> snd (mkdirs e f pre cs) q = Some n"
proof (induction cs arbitrary: f pre)
  case Nil
  then show ?case by simp
next
  case (Cons c cs)
  let ?q = "pre @ [c]"
  show ?case
  proof (cases "f ?q")
    case None
    with Cons.prems have "q \<noteq> ?q" by auto
    with Cons.prems have "(f(?q \<mapsto> Dir)) q = Some n" by simp
    then have "snd (mkdirs e (f(?q \<mapsto> Dir)) ?q cs) q = Some n" by (rule Cons.IH)
    then show ?thesis unfolding mkdirs_None[where f=f and pre=pre and c=c, OF None] using Cons.prems by simp
  next
    case (Some m)
    show ?thesis
    proof (cases m)
      case (File b)
      with Some have s: "f ?q = Some (File b)" by simp
      show ?thesis unfolding mkdirs_File[where f=f and pre=pre and c=c, OF s] using Cons.prems by simp
    next
      case Dir
      with Some have s: "f ?q = Some Dir" by simp
      show ?thesis unfolding mkdirs_Dir[where f=f and pre=pre and c=c, OF s] using Cons.prems by (rule Cons.IH)
    qed
  qed
qed


lemma mkdirs_longer:
  "length pre + length cs < length q \<Longrightarrow> snd (mkdirs e f pre cs) q = f q"
proof (induction cs arbitrary: f pre)
  case Nil
  then show ?case by simp
next
  case (Cons c cs)
  let ?q = "pre @ [c]"
  from Cons.prems have ne: "q \<noteq> ?q" by auto
  from Cons.prems have len: "length ?q + length cs < length q" by simp
  show ?case
  proof (cases "f ?q")
    case None
    have "snd (mkdirs e (f(?q \<mapsto> Dir)) ?q cs) q = (f(?q \<mapsto> Dir)) q"
      using len by (rule Cons.IH)
    then show ?thesis unfolding mkdirs_None[where f=f and pre=pre and c=c, OF None] using ne by simp
  next
    case (Some m)
    show ?thesis
    proof (cases m)
      case (File b')
      with Some have s: "f ?q = Some (File b')" by simp
      show ?thesis unfolding mkdirs_File[where f=f and pre=pre and c=c, OF s] by simp
    next
      case Dir
      with Some have s: "f ?q = Some Dir" by simp
      show ?thesis unfolding mkdirs_Dir[where f=f and pre=pre and c=c, OF s] using len by (rule Cons.IH)
    qed
  qed
qed

lemma mkdirs_creates:
  "fst (mkdirs e f pre cs) = None \<Longrightarrow> cs \<noteq> [] \<Longrightarrow>
   snd (mkdirs e f pre cs) (pre @ cs) = Some Dir"
proof (induction cs arbitrary: f pre)
  case Nil
  then show ?case by simp
next
  case (Cons c cs)
  let ?q = "pre @ [c]"
  have app: "pre @ c # cs = ?q @ cs" by simp
  show ?case
  proof (cases "f ?q")
    case None
    from Cons.prems(1) have nd: "\<not> denied e ?q"
      unfolding mkdirs_None[where f=f and pre=pre and c=c, OF None] by (auto split: if_splits)
    then have ok: "fst (mkdirs e (f(?q \<mapsto> Dir)) ?q cs) = None"
      using Cons.prems(1) unfolding mkdirs_None[where f=f and pre=pre and c=c, OF None] by simp
    have "snd (mkdirs e (f(?q \<mapsto> Dir)) ?q cs) (?q @ cs) = Some Dir"
    proof (cases "cs = []")
      case True
      then show ?thesis by simp
    next
      case False
      with ok show ?thesis by (rule Cons.IH)
    qed
    then show ?thesis unfolding mkdirs_None[where f=f and pre=pre and c=c, OF None] app using nd by simp
  next
    case (Some m)
    show ?thesis
    proof (cases m)
      case (File b')
      with Some have s: "f ?q = Some (File b')" by simp
      show ?thesis using Cons.prems(1) unfolding mkdirs_File[where f=f and pre=pre and c=c, OF s] by simp
    next
      case Dir
      with Some have s: "f ?q = Some Dir" by simp
      have ok: "fst (mkdirs e f ?q cs) = None"
        using Cons.prems(1) unfolding mkdirs_Dir[where f=f and pre=pre and c=c, OF s] by simp
      have "snd (mkdirs e f ?q cs) (?q @ cs) = Some Dir"
      proof (cases "cs = []")
        case True
        then show ?thesis using s by simp
      next
        case False
        with ok show ?thesis by (rule Cons.IH)
      qed
      then show ?thesis unfolding mkdirs_Dir[where f=f and pre=pre and c=c, OF s] app by simp
    qed
  qed
qed

lemma mkdirs_idem:
  "mkdirs e (snd (mkdirs e f pre cs)) pre cs = mkdirs e f pre cs"
proof (induction cs arbitrary: f pre)
  case Nil
  then show ?case by simp
next
  case (Cons c cs)
  let ?q = "pre @ [c]"
  show ?case
  proof (cases "f ?q")
    case None
    show ?thesis
    proof (cases "denied e ?q")
      case True
      have r: "mkdirs e f pre (c # cs) = (Some (os_error e EACCES (str_path (pre @ [c]))), f)"
        unfolding mkdirs_None[where f=f and pre=pre and c=c, OF None] using True by simp
      show ?thesis unfolding r snd_conv by (rule refl)
    next
      case False
      let ?f = "f(?q \<mapsto> Dir)"
      let ?r = "mkdirs e ?f ?q cs"
      have r: "mkdirs e f pre (c # cs) = ?r"
        unfolding mkdirs_None[where f=f and pre=pre and c=c, OF None] using False by simp
      have "snd ?r ?q = Some Dir" by (rule mkdirs_preserve) simp
      then have "mkdirs e (snd ?r) pre (c # cs) = mkdirs e (snd ?r) ?q cs"
        by (rule mkdirs_Dir)
      also have "\<dots> = ?r" by (rule Cons.IH)
      finally show ?thesis unfolding r .
    qed
  next
    case (Some m)
    show ?thesis
    proof (cases m)
      case (File b')
      with Some have s: "f ?q = Some (File b')" by simp
      show ?thesis unfolding mkdirs_File[where f=f and pre=pre and c=c, OF s] snd_conv by (rule refl)
    next
      case Dir
      with Some have s: "f ?q = Some Dir" by simp
      let ?r = "mkdirs e f ?q cs"
      have "snd ?r ?q = Some Dir" using s by (rule mkdirs_preserve)
      then have "mkdirs e (snd ?r) pre (c # cs) = mkdirs e (snd ?r) ?q cs"
        by (rule mkdirs_Dir)
      also have "\<dots> = ?r" by (rule Cons.IH)
      finally show ?thesis unfolding mkdirs_Dir[where f=f and pre=pre and c=c, OF s] .
    qed
  qed
qed

subsection \<open>Following a path\<close>

lemma entry_Nil [simp]: "entry f [] = Some Dir"
  by (simp add: entry_def)

lemma entry_File: "entry f q = Some (File c) \<longleftrightarrow> q \<noteq> [] \<and> f q = Some (File c)"
  by (simp add: entry_def)

lemma keeps_refl: "keeps f f"
  by (simp add: keeps_def)

lemma keeps_trans: "keeps f g \<Longrightarrow> keeps g h \<Longrightarrow> keeps f h"
  unfolding keeps_def by metis

lemma keeps_Dir: "keeps f f' \<Longrightarrow> entry f q = Some Dir \<Longrightarrow> entry f' q = Some Dir"
  by (cases "q = []") (simp_all add: entry_def keeps_def)

lemma keeps_File: "keeps f f' \<Longrightarrow> f q = Some (File c) \<Longrightarrow> \<exists>c'. f' q = Some (File c')"
  by (simp add: keeps_def)

lemma keeps_mkdirs: "keeps f (snd (mkdirs e f pre cs))"
  unfolding keeps_def using mkdirs_preserve[of f _ _ e pre cs] by blast

lemma keeps_write: "f d \<noteq> Some Dir \<Longrightarrow> keeps f (f(d \<mapsto> File c))"
  by (auto simp: keeps_def)

lemma walk_Inr_Dir: "walk f cur (c # cs) = Inr q \<Longrightarrow> entry f cur = Some Dir"
  by (simp split: option.splits node.splits)

lemma walk_keeps: "keeps f f' \<Longrightarrow> walk f cur p = Inr q \<Longrightarrow> walk f' cur p = Inr q"
proof (induction p arbitrary: cur)
  case Nil
  then show ?case by simp
next
  case (Cons c cs)
  from Cons.prems(2) have d: "entry f cur = Some Dir" by (rule walk_Inr_Dir)
  with Cons.prems(1) have d': "entry f' cur = Some Dir" by (rule keeps_Dir)
  from Cons.prems(2) d
  have "walk f (if c = ''..'' then butlast cur else cur @ [c]) cs = Inr q" by simp
  with Cons.prems(1)
  have "walk f' (if c = ''..'' then butlast cur else cur @ [c]) cs = Inr q" by (rule Cons.IH)
  with d' show ?case by simp
qed

lemma walk_append:
  "walk f cur (xs @ ys) = (case walk f cur xs of Inl err \<Rightarrow> Inl err | Inr m \<Rightarrow> walk f m ys)"
  by (induction xs arbitrary: cur) (simp_all split: option.splits node.splits)

lemma walk_two_names:
  assumes "walk f cur (xs @ [a, b]) = Inr q" and "a \<noteq> ''..''" and "b \<noteq> ''..''"
  shows "\<exists>m. q = m @ [a, b]"
proof (cases "walk f cur xs")
  case (Inl err)
  with assms(1) show ?thesis by (simp add: walk_append)
next
  case (Inr m)
  with assms have "q = m @ [a, b]"
    by (simp add: walk_append split: option.splits node.splits)
  then show ?thesis ..
qed

lemma node_at_File:
  "node_at f p = Some (File c) \<longleftrightarrow> (\<exists>q. walk f [] p = Inr q \<and> entry f q = Some (File c))"
  by (auto simp: node_at_def split: sum.splits)

lemma is_file_PathSrc:
  "is_file e f (PathSrc p) \<longleftrightarrow> (\<exists>q c. walk f [] p = Inr q \<and> entry f q = Some (File c))"
  by (auto simp: is_file_def node_at_def split: option.splits node.splits sum.splits)

lemma is_file_locate:
  assumes "is_file e f (PathSrc p)"
  obtains q c where "locate f (PathSrc p) = Some q" and "walk f [] p = Inr q"
    and "f q = Some (File c)" and "q \<noteq> []"
proof -
  from assms obtain q c where w: "walk f [] p = Inr q" and c: "entry f q = Some (File c)"
    unfolding is_file_PathSrc by blast
  from c have "q \<noteq> []" and "f q = Some (File c)" by (simp_all add: entry_File)
  with w that show thesis by simp
qed

lemma is_file_keeps:
  assumes "is_file e f src" and "keeps f f'"
  shows "is_file e f' src" and "locate f' src = locate f src"
proof -
  have "is_file e f' src \<and> locate f' src = locate f src"
  proof (cases src)
    case (PathSrc p)
    from assms(1) obtain q c where w: "walk f [] p = Inr q" and c: "f q = Some (File c)"
      and ne: "q \<noteq> []"
      unfolding PathSrc by (rule is_file_locate)
    from assms(2) w have w': "walk f' [] p = Inr q" by (rule walk_keeps)
    from assms(2) c obtain c' where "f' q = Some (File c')" using keeps_File by blast
    with ne have "entry f' q = Some (File c')" by (simp add: entry_File)
    with w w' show ?thesis unfolding PathSrc is_file_PathSrc by auto
  next
    case (Traversable p)
    with assms(1) show ?thesis by (simp add: is_file_def)
  next
    case Opaque
    with assms(1) show ?thesis by (simp add: is_file_def)
  qed
  then show "is_file e f' src" and "locate f' src = locate f src" by simp_all
qed

subsection \<open>Reading, writing and the body of the copier\<close>

lemma hasattr_read_bytes [simp]: "hasattr src ''read_bytes'' = (src \<noteq> Opaque)"
  by (cases src) simp_all

lemma hasattr_is_file [simp]: "hasattr src ''is_file'' = (src \<noteq> Opaque)"
  by (cases src) simp_all

lemma hasattr_is_dir [simp]: "hasattr src ''is_dir'' = (src \<noteq> Opaque)"
  by (cases src) simp_all

lemma read_bytes_Inr:
  "read_bytes e f src = Inr c \<longleftrightarrow>
     (case src of
        PathSrc p \<Rightarrow> (\<exists>q. walk f [] p = Inr q \<and> entry f q = Some (File c) \<and> \<not> denied e q)
      | Traversable p \<Rightarrow> package_data e p = Some (File c)
      | Opaque \<Rightarrow> False)"
  by (auto simp: read_bytes_def split: source.splits option.splits node.splits sum.splits)

text \<open>
  A source that is a file is read the same in two file systems that keep the one it
  was found in and agree at the place it leads to.
\<close>

lemma read_bytes_same:
  assumes "is_file e f src" and "keeps f f1" and "keeps f f2"
    and "\<And>q. locate f src = Some q \<Longrightarrow> f2 q = f1 q"
  shows "read_bytes e f2 src = read_bytes e f1 src"
proof (cases src)
  case (PathSrc p)
  from assms(1) obtain q c where l: "locate f (PathSrc p) = Some q"
    and w: "walk f [] p = Inr q" and ne: "q \<noteq> []"
    unfolding PathSrc by (rule is_file_locate)
  from assms(2) w have w1: "walk f1 [] p = Inr q" by (rule walk_keeps)
  from assms(3) w have w2: "walk f2 [] p = Inr q" by (rule walk_keeps)
  from l have "f2 q = f1 q" unfolding PathSrc[symmetric] by (rule assms(4))
  then have "entry f2 q = entry f1 q" using ne by (simp add: entry_def)
  then show ?thesis unfolding PathSrc by (simp add: read_bytes_def w1 w2)
next
  case (Traversable p)
  then show ?thesis by (simp add: read_bytes_def)
next
  case Opaque
  then show ?thesis by (simp add: read_bytes_def)
qed

lemma read_bytes_at:
  assumes "is_file e f src" and "keeps f f1" and "read_bytes e f1 src = Inr c"
    and "locate f src = Some q"
  shows "f1 q = Some (File c)" and "\<not> denied e q"
proof -
  from assms(4) obtain p where src: "src = PathSrc p" by (cases src) simp_all
  from assms(4) have w: "walk f [] p = Inr q" unfolding src by (simp split: sum.splits)
  from assms(2) w have w1: "walk f1 [] p = Inr q" by (rule walk_keeps)
  from assms(3) show "f1 q = Some (File c)" and "\<not> denied e q"
    unfolding src read_bytes_Inr by (simp_all add: w1 entry_File)
qed

lemma read_bytes_transfer:
  assumes "is_file e f src" and "keeps f f1" and "keeps f f2"
    and "read_bytes e f1 src = Inr c"
    and "\<And>q. locate f src = Some q \<Longrightarrow> f2 q = Some (File c)"
  shows "read_bytes e f2 src = Inr c"
proof -
  have "read_bytes e f2 src = read_bytes e f1 src"
  proof (rule read_bytes_same[OF assms(1-3)])
    fix q assume l: "locate f src = Some q"
    from read_bytes_at(1)[OF assms(1,2,4) l] assms(5)[OF l] show "f2 q = f1 q" by simp
  qed
  with assms(4) show ?thesis by simp
qed



lemma node_of_located:
  assumes "is_file e f src" and "keeps f f'"
    and "\<And>q. locate f src = Some q \<Longrightarrow> f' q = Some (File c)"
    and "read_bytes e f1 src = Inr c" and "keeps f f1"
  shows "node_of e f' src = Some (File c)"
proof (cases src)
  case (PathSrc p)
  from assms(1) obtain q where l: "locate f (PathSrc p) = Some q" and w: "walk f [] p = Inr q"
    and ne: "q \<noteq> []"
    unfolding PathSrc by (rule is_file_locate)
  from assms(2) w have w': "walk f' [] p = Inr q" by (rule walk_keeps)
  from l have "f' q = Some (File c)" unfolding PathSrc[symmetric] by (rule assms(3))
  with w' ne show ?thesis unfolding PathSrc by (simp add: node_at_File entry_File)
next
  case (Traversable p)
  with assms(4) show ?thesis by (simp add: read_bytes_Inr)
next
  case Opaque
  with assms(4) show ?thesis by (simp add: read_bytes_Inr)
qed

lemma copy_rule_file_try_unfold:
  "copy_rule_file_try e src dest f =
     (case mkdir_parents e f (butlast dest) of
        (Some x, f1) \<Rightarrow> (Inl x, f1)
      | (None, f1) \<Rightarrow>
          (case read_bytes e f1 src of
             Inl x \<Rightarrow> (Inl x, f1)
           | Inr content \<Rightarrow>
               (case write_bytes e f1 dest content of
                  Inl x \<Rightarrow> (Inl x, f1)
                | Inr f2 \<Rightarrow> (Inr True, f2))))"
  by (cases src) (simp_all add: copy_rule_file_try_def split: prod.splits option.splits)

lemma write_bytes_Inr:
  "write_bytes e f p c = Inr f' \<longleftrightarrow>
     entry f p \<noteq> Some Dir \<and> entry f (butlast p) = Some Dir \<and> \<not> denied e p
     \<and> f' = f(p \<mapsto> File c)"
  by (auto simp: write_bytes_def split: option.splits node.splits)

subsection \<open>Splitting the argument\<close>

lemma split_str_not_Nil: "split_str sep s \<noteq> []"
  by (induction s) (auto split: list.splits)

lemma length_split_str: "length (split_str sep s) = Suc (count_list s sep)"
  by (induction s) (auto split: list.splits simp: split_str_not_Nil)





subsection \<open>Printing\<close>

lemma isinstance_Exception_all [simp]: "isinstance_Exception x"
  by (cases x) simp_all

lemma console_print_fs [simp]: "fs (snd (console_print e m s)) = fs s"
  by (simp add: console_print_def split: option.splits)

lemma console_print_trace [simp]: "trace (snd (console_print e m s)) = trace s"
  by (simp add: console_print_def split: option.splits)

lemma console_print_renders:
  "renders e m \<Longrightarrow> console_print e m s = (Inr (), s\<lparr>console := console s @ [m]\<rparr>)"
  by (simp add: console_print_def renders_def)

lemma console_print_Inr:
  "console_print e m s = (Inr u, s') \<Longrightarrow> renders e m \<and> s' = s\<lparr>console := console s @ [m]\<rparr>"
  by (auto simp: console_print_def renders_def split: option.splits)

lemma console_print_Inl:
  "console_print e m s = (Inl x, s') \<Longrightarrow> \<not> renders e m \<and> s' = s \<and> (\<exists>t. x = MarkupError t)"
  by (auto simp: console_print_def renders_def split: option.splits)

lemma print_then_raise_fs [simp]: "fs (snd (print_then_raise e m x s)) = fs s"
  by (simp add: print_then_raise_def console_print_def split: option.splits)

lemma print_then_raise_trace [simp]: "trace (snd (print_then_raise e m x s)) = trace s"
  by (simp add: print_then_raise_def console_print_def split: option.splits)

lemma print_then_raise_renders:
  "renders e m \<Longrightarrow> print_then_raise e m x s = (Inl x, s\<lparr>console := console s @ [m]\<rparr>)"
  by (simp add: print_then_raise_def console_print_renders)

lemma print_then_raise_exit [simp]: "exit_code (print_then_raise e m x s) = 1"
  by (simp add: print_then_raise_def console_print_def split: option.splits)

text \<open>The messages without a value of the run in them render, whatever the open functions are.\<close>

lemma renders_BlankLine [simp]: "renders e BlankLine"
  by (simp add: renders_def markup_error_def)

lemma renders_UnexpectedError_Nil [simp]: "renders e (UnexpectedError [])"
  by (simp add: renders_def markup_error_def tag_start_def tag_name_def tag_parameters_def
        strip_def isspace_def close_error_def)

lemma renders_InvalidRulePathFormat [simp]: "renders e InvalidRulePathFormat"
  by (simp add: renders_def markup_error_def tag_start_def tag_name_def tag_parameters_def
        strip_def isspace_def close_error_def)

lemma renders_CopiedGeneralRule [simp]:
  "renders e (CopiedGeneralRule [''.cursor'', ''rules'', ''general'', ''RULE.md''])"
  by (simp add: renders_def markup_error_def tag_start_def tag_name_def tag_parameters_def
        strip_def isspace_def close_error_def)

subsection \<open>Directories that exist, ways that are free\<close>

lemma dirs_exist_mono:
  assumes "dirs_exist f pre cs" and m: "\<And>q. f q = Some Dir \<Longrightarrow> f' q = Some Dir"
  shows "dirs_exist f' pre cs"
  using assms(1)
proof (induction cs arbitrary: pre)
  case Nil
  show ?case by simp
next
  case (Cons c cs)
  from Cons.prems have a: "f (pre @ [c]) = Some Dir" and b: "dirs_exist f (pre @ [c]) cs"
    by simp_all
  from a have "f' (pre @ [c]) = Some Dir" by (rule m)
  moreover from b have "dirs_exist f' (pre @ [c]) cs" by (rule Cons.IH)
  ultimately show ?case by simp
qed

lemma mkdirs_dirs_exist:
  "fst (mkdirs e f pre cs) = None \<Longrightarrow> dirs_exist (snd (mkdirs e f pre cs)) pre cs"
proof (induction cs arbitrary: f pre)
  case Nil
  show "dirs_exist (snd (mkdirs e f pre [])) pre []" by simp
next
  case (Cons c cs)
  let ?q = "pre @ [c]"
  show "dirs_exist (snd (mkdirs e f pre (c # cs))) pre (c # cs)"
  proof (cases "f ?q")
    case None
    note step = mkdirs_None[where f=f and pre=pre and c=c and e=e and cs=cs, OF None]
    from Cons.prems have nd: "\<not> denied e ?q" unfolding step by (auto split: if_splits)
    let ?r = "mkdirs e (f(?q \<mapsto> Dir)) ?q cs"
    have r: "mkdirs e f pre (c # cs) = ?r" unfolding step using nd by simp
    from Cons.prems have "fst ?r = None" unfolding r .
    then have "dirs_exist (snd ?r) ?q cs" by (rule Cons.IH)
    moreover have "snd ?r ?q = Some Dir" by (rule mkdirs_preserve) simp
    ultimately show ?thesis unfolding r by simp
  next
    case (Some m)
    show ?thesis
    proof (cases m)
      case (File b')
      with Some have s: "f ?q = Some (File b')" by simp
      show ?thesis using Cons.prems unfolding mkdirs_File[where f=f and pre=pre and c=c, OF s] by simp
    next
      case Dir
      with Some have s: "f ?q = Some Dir" by simp
      note step = mkdirs_Dir[where f=f and pre=pre and c=c and e=e and cs=cs, OF s]
      let ?r = "mkdirs e f ?q cs"
      from Cons.prems have "fst ?r = None" unfolding step .
      then have "dirs_exist (snd ?r) ?q cs" by (rule Cons.IH)
      moreover have "snd ?r ?q = Some Dir" using s by (rule mkdirs_preserve)
      ultimately show ?thesis unfolding step by simp
    qed
  qed
qed

lemma mkdirs_when_dirs_exist: "dirs_exist f pre cs \<Longrightarrow> mkdirs e f pre cs = (None, f)"
proof (induction cs arbitrary: pre)
  case Nil
  show ?case by simp
next
  case (Cons c cs)
  from Cons.prems have a: "f (pre @ [c]) = Some Dir" and b: "dirs_exist f (pre @ [c]) cs"
    by simp_all
  from b have "mkdirs e f (pre @ [c]) cs = (None, f)" by (rule Cons.IH)
  then show ?case unfolding mkdirs_Dir[where f=f and pre=pre and c=c, OF a] .
qed





subsection \<open>When the copier succeeds\<close>

text \<open>The body of the copier succeeds exactly when the copy can be made, and then writes the source's bytes.\<close>

lemma copy_try_ok:
  assumes w: "writable e f dest"
    and r: "read_bytes e (snd (mkdirs e f [] (butlast dest))) src = Inr c"
  shows "copy_rule_file_try e src dest f =
           (Inr True, (snd (mkdirs e f [] (butlast dest)))(dest \<mapsto> File c))"
proof -
  let ?r = "mkdirs e f [] (butlast dest)"
  from w have ne: "dest \<noteq> []" and fw: "free_way e f [] (butlast dest)"
    and nd: "f dest \<noteq> Some Dir" and de: "\<not> denied e dest"
    by (simp_all add: writable_def)
  have ok: "fst ?r = None" using fw by (simp add: mkdirs_ok_iff)
  then have rr: "?r = (None, snd ?r)" by (cases ?r) simp
  have "length ([]::path) + length (butlast dest) < length dest" using ne by simp
  then have same: "snd ?r dest = f dest" by (rule mkdirs_longer)
  have n1: "entry (snd ?r) dest \<noteq> Some Dir" using same nd ne by (simp add: entry_def)
  have n2: "entry (snd ?r) (butlast dest) = Some Dir"
  proof (cases "butlast dest = []")
    case True
    then show ?thesis by simp
  next
    case False
    with ok have "snd ?r ([] @ butlast dest) = Some Dir" by (rule mkdirs_creates)
    with False show ?thesis by (simp add: entry_def)
  qed
  have wr: "write_bytes e (snd ?r) dest c = Inr ((snd ?r)(dest \<mapsto> File c))"
    using n1 n2 de by (simp add: write_bytes_Inr)
  show ?thesis
    unfolding copy_rule_file_try_unfold mkdir_parents_def
    by (subst rr) (simp add: r wr)
qed

lemma copy_try_fail:
  assumes "\<not> can_copy e f src dest"
  shows "\<exists>x. copy_rule_file_try e src dest f = (Inl x, snd (mkdirs e f [] (butlast dest)))"
proof -
  let ?r = "mkdirs e f [] (butlast dest)"
  show ?thesis
  proof (cases "fst ?r")
    case (Some x)
    then have rr: "?r = (Some x, snd ?r)" by (cases ?r) simp
    show ?thesis unfolding copy_rule_file_try_unfold mkdir_parents_def
      by (subst rr) simp
  next
    case None
    then have rr: "?r = (None, snd ?r)" by (cases ?r) simp
    have fw: "free_way e f [] (butlast dest)" using None by (simp add: mkdirs_ok_iff)
    show ?thesis
    proof (cases "read_bytes e (snd ?r) src")
      case (Inl x)
      show ?thesis unfolding copy_rule_file_try_unfold mkdir_parents_def
        by (subst rr) (simp add: Inl)
    next
      case (Inr c)
      have nw: "\<not> writable e f dest" using assms Inr by (simp add: can_copy_def)
      have "\<exists>x. write_bytes e (snd ?r) dest c = Inl x"
      proof (cases "write_bytes e (snd ?r) dest c")
        case (Inl x)
        then show ?thesis by simp
      next
        case inr: (Inr f2)
        then have a: "entry (snd ?r) dest \<noteq> Some Dir" and d: "\<not> denied e dest"
          by (simp_all add: write_bytes_Inr)
        from a have ne: "dest \<noteq> []" by (auto simp: entry_def)
        then have "length ([]::path) + length (butlast dest) < length dest" by simp
        then have "snd ?r dest = f dest" by (rule mkdirs_longer)
        with a ne have "f dest \<noteq> Some Dir" by (simp add: entry_def)
        with ne fw d have "writable e f dest" by (simp add: writable_def)
        with nw show ?thesis by simp
      qed
      then obtain x where "write_bytes e (snd ?r) dest c = Inl x" ..
      then show ?thesis unfolding copy_rule_file_try_unfold mkdir_parents_def
        by (subst rr) (simp add: Inr)
    qed
  qed
qed

lemma can_copy_read:
  "can_copy e f src dest \<Longrightarrow> \<exists>c. read_bytes e (snd (mkdirs e f [] (butlast dest))) src = Inr c"
  by (cases "read_bytes e (snd (mkdirs e f [] (butlast dest))) src") (simp_all add: can_copy_def)

lemma copy_try_fst: "fst (copy_rule_file_try e src dest f) = Inr True \<longleftrightarrow> can_copy e f src dest"
proof (cases "can_copy e f src dest")
  case True
  then obtain c where "read_bytes e (snd (mkdirs e f [] (butlast dest))) src = Inr c"
    using can_copy_read by blast
  moreover from True have "writable e f dest" by (simp add: can_copy_def)
  ultimately show ?thesis using True copy_try_ok by simp
next
  case False
  then show ?thesis using copy_try_fail[OF False] by auto
qed

lemma copy_try_snd_fail:
  assumes "\<not> can_copy e f src d"
  shows "snd (copy_rule_file_try e src d f) = snd (mkdirs e f [] (butlast d))"
  using copy_try_fail[OF assms] by auto

lemma copy_try_snd_ok:
  assumes "writable e f d" and "read_bytes e (snd (mkdirs e f [] (butlast d))) src = Inr c"
  shows "snd (copy_rule_file_try e src d f) = (snd (mkdirs e f [] (butlast d)))(d \<mapsto> File c)"
  unfolding copy_try_ok[OF assms] by simp

lemma writable_after_mkdirs:
  assumes "writable e f d"
  shows "snd (mkdirs e f [] (butlast d)) d \<noteq> Some Dir"
proof -
  from assms have ne: "d \<noteq> []" and nd: "f d \<noteq> Some Dir" by (simp_all add: writable_def)
  have "length ([]::path) + length (butlast d) < length d" using ne by simp
  then have "snd (mkdirs e f [] (butlast d)) d = f d" by (rule mkdirs_longer)
  with nd show ?thesis by simp
qed

lemma keeps_copy_try: "keeps f (snd (copy_rule_file_try e src d f))"
proof (cases "can_copy e f src d")
  case False
  show ?thesis unfolding copy_try_snd_fail[OF False] by (rule keeps_mkdirs)
next
  case True
  then obtain c where r: "read_bytes e (snd (mkdirs e f [] (butlast d))) src = Inr c"
    using can_copy_read by blast
  from True have w: "writable e f d" by (simp add: can_copy_def)
  have "keeps (snd (mkdirs e f [] (butlast d))) ((snd (mkdirs e f [] (butlast d)))(d \<mapsto> File c))"
    using writable_after_mkdirs[OF w] by (rule keeps_write)
  with keeps_mkdirs show ?thesis unfolding copy_try_snd_ok[OF w r] by (rule keeps_trans)
qed

text \<open>What the copier returns, prints and leaves.\<close>

lemma copy_rule_file_ok:
  assumes "can_copy e (fs s) src dest"
  shows "copy_rule_file e src dest s =
           (Inr True,
            s\<lparr>trace := trace s @ [CopyRuleFile src dest],
              fs := snd (copy_rule_file_try e src dest (fs s))\<rparr>)"
proof -
  obtain r f' where t: "copy_rule_file_try e src dest (fs s) = (r, f')"
    by (cases "copy_rule_file_try e src dest (fs s)")
  from assms have "fst (copy_rule_file_try e src dest (fs s)) = Inr True"
    by (simp add: copy_try_fst)
  with t have r: "r = Inr True" by simp
  show ?thesis by (simp add: copy_rule_file_def record_event_def Let_def t r)
qed

lemma copy_rule_file_not_ok:
  assumes "\<not> can_copy e (fs s) src dest"
  shows "\<exists>x. copy_rule_file e src dest s =
           (case console_print e (ErrorCopyingFile dest (str_exn x))
                   (s\<lparr>trace := trace s @ [CopyRuleFile src dest],
                      fs := snd (mkdirs e (fs s) [] (butlast dest))\<rparr>) of
              (Inl y, s1) \<Rightarrow> (Inl y, s1)
            | (Inr u, s1) \<Rightarrow> (Inr False, s1))"
proof -
  from copy_try_fail[OF assms] obtain x where
    t: "copy_rule_file_try e src dest (fs s) = (Inl x, snd (mkdirs e (fs s) [] (butlast dest)))" ..
  have "copy_rule_file e src dest s =
           (case console_print e (ErrorCopyingFile dest (str_exn x))
                   (s\<lparr>trace := trace s @ [CopyRuleFile src dest],
                      fs := snd (mkdirs e (fs s) [] (butlast dest))\<rparr>) of
              (Inl y, s1) \<Rightarrow> (Inl y, s1)
            | (Inr u, s1) \<Rightarrow> (Inr False, s1))"
    by (simp add: copy_rule_file_def record_event_def Let_def t)
  then show ?thesis ..
qed


text \<open>
  The copier ends in one of three ways: it returns true and has printed nothing; it
  returns false and has printed its message; or the printing of that message raised,
  and nothing was printed.
\<close>

lemma copy_rule_file_cases:
  obtains (copied) "fst (copy_rule_file e src dest s) = Inr True"
      and "can_copy e (fs s) src dest"
      and "console (snd (copy_rule_file e src dest s)) = console s"
    | (failed) x where "fst (copy_rule_file e src dest s) = Inr False"
      and "\<not> can_copy e (fs s) src dest"
      and "renders e (ErrorCopyingFile dest (str_exn x))"
      and "console (snd (copy_rule_file e src dest s))
             = console s @ [ErrorCopyingFile dest (str_exn x)]"
    | (raised) x t where "fst (copy_rule_file e src dest s) = Inl (MarkupError t)"
      and "\<not> can_copy e (fs s) src dest"
      and "\<not> renders e (ErrorCopyingFile dest (str_exn x))"
      and "console (snd (copy_rule_file e src dest s)) = console s"
proof (cases "can_copy e (fs s) src dest")
  case True
  then have "fst (copy_rule_file e src dest s) = Inr True"
    and "console (snd (copy_rule_file e src dest s)) = console s"
    by (simp_all add: copy_rule_file_ok)
  with True show thesis using copied by blast
next
  case False
  let ?s1 = "s\<lparr>trace := trace s @ [CopyRuleFile src dest],
                fs := snd (mkdirs e (fs s) [] (butlast dest))\<rparr>"
  from copy_rule_file_not_ok[OF False] obtain x where
    run: "copy_rule_file e src dest s =
           (case console_print e (ErrorCopyingFile dest (str_exn x)) ?s1 of
              (Inl y, s1) \<Rightarrow> (Inl y, s1)
            | (Inr u, s1) \<Rightarrow> (Inr False, s1))" ..
  show thesis
  proof (cases "renders e (ErrorCopyingFile dest (str_exn x))")
    case True
    have "fst (copy_rule_file e src dest s) = Inr False"
      and "console (snd (copy_rule_file e src dest s))
             = console s @ [ErrorCopyingFile dest (str_exn x)]"
      unfolding run by (simp_all add: console_print_renders[OF True])
    with False True show thesis using failed by blast
  next
    case nr: False
    obtain r s' where p: "console_print e (ErrorCopyingFile dest (str_exn x)) ?s1 = (r, s')"
      by (cases "console_print e (ErrorCopyingFile dest (str_exn x)) ?s1")
    show thesis
    proof (cases r)
      case (Inr u)
      with p nr console_print_Inr show thesis by blast
    next
      case (Inl y)
      with p console_print_Inl obtain t where "y = MarkupError t" and "s' = ?s1" by blast
      with p Inl have "fst (copy_rule_file e src dest s) = Inl (MarkupError t)"
        and "console (snd (copy_rule_file e src dest s)) = console s"
        unfolding run by simp_all
      with False nr show thesis using raised by blast
    qed
  qed
qed

subsection \<open>The locator\<close>

lemma is_dir_exists: "is_dir e f src \<Longrightarrow> exists_src e f src"
  by (simp add: is_dir_def exists_src_def split: option.splits)

lemma is_dir_Opaque [simp]: "\<not> is_dir e f Opaque"
  by (simp add: is_dir_def)

lemma path_join_rules [simp]: "path_join p ''rules'' = p @ [''rules'']"
  by (simp add: path_join_def)

lemma get_rules_path_spec: "get_rules_path e f = locator_spec e f"
proof (cases "resource_files e")
  case (Inl x)
  have i: "isinstance_lookup_error x \<or> isinstance_Exception x" by simp
  show ?thesis
    using is_dir_exists[of e f] i
    by (auto simp: get_rules_path_def get_rules_path_try_def locator_spec_def
                   locator_candidates_def Inl Let_def)
next
  case (Inr package_ref)
  show ?thesis
  proof (cases package_ref)
    case Opaque
    show ?thesis
      using is_dir_exists[of e f]
      by (auto simp: get_rules_path_def get_rules_path_try_def locator_spec_def
                     locator_candidates_def Inr Opaque Let_def)
  next
    case (PathSrc p)
    show ?thesis
      using is_dir_exists[of e f]
      by (auto simp: get_rules_path_def get_rules_path_try_def locator_spec_def
                     locator_candidates_def Inr PathSrc Let_def)
  next
    case (Traversable p)
    show ?thesis
      using is_dir_exists[of e f]
      by (auto simp: get_rules_path_def get_rules_path_try_def locator_spec_def
                     locator_candidates_def Inr Traversable Let_def)
  qed
qed


subsection \<open>The run of the command\<close>

text \<open>Printing as a choice on whether the message renders.\<close>

lemma console_print_if:
  "console_print e m s =
     (if renders e m then (Inr (), s\<lparr>console := console s @ [m]\<rparr>)
      else (Inl (print_failure e m), s))"
  by (auto simp: console_print_def renders_def print_failure_def)

lemma print_then_raise_if:
  "print_then_raise e m x s =
     (if renders e m then (Inl x, s\<lparr>console := console s @ [m]\<rparr>)
      else (Inl (print_failure e m), s))"
  by (simp add: print_then_raise_def console_print_if)

lemma print_failure_not_Abort [simp]: "print_failure e m \<noteq> Abort"
  by (simp add: print_failure_def)

lemma print_failure_not_FileNotFoundError [simp]:
  "\<not> isinstance_FileNotFoundError (print_failure e m)"
  by (simp add: print_failure_def)

lemma copy_rule_file_if:
  "copy_rule_file e src dest s =
     (if can_copy e (fs s) src dest
      then (Inr True,
            s\<lparr>trace := trace s @ [CopyRuleFile src dest],
              fs := snd (copy_rule_file_try e src dest (fs s))\<rparr>)
      else if renders e (copy_message e src dest (fs s))
      then (Inr False,
            s\<lparr>trace := trace s @ [CopyRuleFile src dest],
              fs := snd (copy_rule_file_try e src dest (fs s)),
              console := console s @ [copy_message e src dest (fs s)]\<rparr>)
      else (Inl (print_failure e (copy_message e src dest (fs s))),
            s\<lparr>trace := trace s @ [CopyRuleFile src dest],
              fs := snd (copy_rule_file_try e src dest (fs s))\<rparr>))"
proof (cases "can_copy e (fs s) src dest")
  case True
  then show ?thesis by (simp add: copy_rule_file_ok)
next
  case False
  from copy_try_fail[OF False] obtain x where
    t: "copy_rule_file_try e src dest (fs s) = (Inl x, snd (mkdirs e (fs s) [] (butlast dest)))" ..
  have m: "copy_message e src dest (fs s) = ErrorCopyingFile dest (str_exn x)"
    by (simp add: copy_message_def t)
  show ?thesis
    using False
    by (simp add: copy_rule_file_def record_event_def Let_def t m console_print_if)
qed

lemma joinpath_PathSrc: "\<exists>q. joinpath (PathSrc p) segs = Inr (PathSrc q)"
  by (induction segs arbitrary: p) simp_all

lemma joinpath_Traversable: "\<exists>q. joinpath (Traversable p) segs = Inr (Traversable q)"
  by (induction segs arbitrary: p) simp_all

lemma joinpath_Opaque: "segs \<noteq> [] \<Longrightarrow> \<exists>x. joinpath Opaque segs = Inl x"
  by (cases segs) simp_all

lemma joinpath_result_not_Opaque:
  assumes "joinpath src segs = Inr r" and "segs \<noteq> []"
  shows "r \<noteq> Opaque"
proof (cases src)
  case (PathSrc p)
  with joinpath_PathSrc[of p segs] assms show ?thesis by auto
next
  case (Traversable p)
  with joinpath_Traversable[of p segs] assms show ?thesis by auto
next
  case Opaque
  with joinpath_Opaque[OF assms(2)] assms show ?thesis by auto
qed

lemma joinpath_defined:
  assumes "src \<noteq> Opaque"
  shows "\<exists>r. joinpath src segs = Inr r"
proof (cases src)
  case (PathSrc p)
  with joinpath_PathSrc[of p segs] show ?thesis by auto
next
  case (Traversable p)
  with joinpath_Traversable[of p segs] show ?thesis by auto
next
  case Opaque
  with assms show ?thesis by simp
qed

lemma rule_exists_simp:
  "src \<noteq> Opaque \<Longrightarrow> rule_exists e src s = (is_file e (fs s) src, record_event (IsFile src) s)"
  by (simp add: rule_exists_def)

lemma dest_paths:
  "path_join (path_join (path_join (path_join cwd ''.cursor'') ''rules'') ''general'') ''RULE.md''
     = general_dest cwd"
  "path_join (path_join (path_join (path_join cwd ''.cursor'') ''rules'') ''code-patterns'')
     ''RULE.md'' = specific_dest cwd"
  "path_join (path_join (cwd @ [''.cursor'', ''rules'']) ''general'') ''RULE.md''
     = general_dest cwd"
  "path_join (path_join (cwd @ [''.cursor'', ''rules'']) ''code-patterns'') ''RULE.md''
     = specific_dest cwd"
  "path_join (path_join cwd ''.cursor'') ''rules'' = cwd @ [''.cursor'', ''rules'']"
  by (simp_all add: path_join_def general_dest_def specific_dest_def)

lemma relative_paths:
  "relative_to (general_dest cwd) cwd = [''.cursor'', ''rules'', ''general'', ''RULE.md'']"
  "relative_to (specific_dest cwd) cwd = [''.cursor'', ''rules'', ''code-patterns'', ''RULE.md'']"
  "path_join (path_join (relative_to (cwd @ [''.cursor'', ''rules'']) cwd) ''general'') ''RULE.md''
     = [''.cursor'', ''rules'', ''general'', ''RULE.md'']"
  "path_join (path_join (relative_to (cwd @ [''.cursor'', ''rules'']) cwd) ''code-patterns'')
     ''RULE.md'' = [''.cursor'', ''rules'', ''code-patterns'', ''RULE.md'']"
  by (simp_all add: relative_to_def path_join_def general_dest_def specific_dest_def)

text \<open>The run of the body up to the copy stage, once the rule directory is located.\<close>

text \<open>The run of the body up to the copy stage, once the rule directory is located.\<close>

lemma fetch_try_located:
  assumes split: "split_str CHR ''/'' rule_path = [category, framework]"
    and cwd: "getcwd e = Inr cwd"
    and loc: "get_rules_path e (fs s) = Inr rules_path"
    and g: "joinpath rules_path [category, ''general'', ''RULE.md''] = Inr g"
    and sp: "joinpath rules_path [category, framework, ''RULE.md''] = Inr sp"
  shows "fetch_try e rule_path s =
           (if \<not> is_file e (fs s) g
            then print_then_raise e (GeneralRuleNotFound g) Abort
                   (record_event (IsFile sp) (record_event (IsFile g) s))
            else if \<not> is_file e (fs s) sp
            then print_then_raise e (FrameworkRuleNotFound sp category) Abort
                   (record_event (IsFile sp) (record_event (IsFile g) s))
            else fetch_copy e rule_path framework cwd g sp
                   (record_event (IsFile sp) (record_event (IsFile g) s)))"
proof -
  have g0: "g \<noteq> Opaque" using g by (rule joinpath_result_not_Opaque) simp
  have s0: "sp \<noteq> Opaque" using sp by (rule joinpath_result_not_Opaque) simp
  have fsr: "fs (record_event (IsFile g) s) = fs s" by (simp add: record_event_def)
  show ?thesis
    unfolding fetch_try_def split Let_def
    by (simp only: cwd loc g sp rule_exists_simp[OF g0] rule_exists_simp[OF s0] fsr
          dest_paths relative_paths fetch_copy_def
          list.case sum.case prod.case length_Cons list.size if_False if_True
          One_nat_def Suc_1 [symmetric] refl simp_thms)
qed

lemma fetch_try_usage:
  "length (split_str CHR ''/'' rp) \<noteq> 2 \<Longrightarrow>
   fetch_try e rp s = (Inl Abort, s\<lparr>console := console s @ [InvalidRulePathFormat]\<rparr>)"
  by (simp add: fetch_try_def Let_def print_then_raise_if)

text \<open>The handlers print and raise; they touch neither the file system nor the trace.\<close>

lemma fetch_raise:
  "fetch_try e rp s = (Inl x, s') \<Longrightarrow>
   fetch e rp s =
     print_then_raise e
       (if isinstance_FileNotFoundError x then CouldNotFindRulesDirectory (str_exn x)
        else UnexpectedError (str_exn x)) Abort s'"
  by (simp add: fetch_def)

lemma fetch_fs: "fs (snd (fetch e rp s)) = fs (snd (fetch_try e rp s))"
  by (simp add: fetch_def split: prod.splits sum.splits)

lemma fetch_trace: "trace (snd (fetch e rp s)) = trace (snd (fetch_try e rp s))"
  by (simp add: fetch_def split: prod.splits sum.splits)

lemma fetch_exit:
  "exit_code (fetch e rp s) = (case fst (fetch_try e rp s) of Inr u \<Rightarrow> 0 | Inl x \<Rightarrow> 1)"
  by (simp add: fetch_def split: prod.splits sum.splits)

lemma fetch_abort:
  "fetch_try e rp s = (Inl Abort, s') \<Longrightarrow>
   fetch e rp s = (Inl Abort, s'\<lparr>console := console s' @ [UnexpectedError []]\<rparr>)"
  by (simp add: fetch_raise print_then_raise_if)

lemma get_rules_path_not_Opaque:
  assumes "get_rules_path e f = Inr r"
  shows "r \<noteq> Opaque"
proof
  assume o: "r = Opaque"
  from assms have "find (is_dir e f) (locator_candidates e) = Some r"
    unfolding get_rules_path_spec locator_spec_def by (simp split: option.splits)
  then have "is_dir e f r" by (auto simp: find_Some_iff)
  with o show False by simp
qed

lemma get_rules_path_error:
  assumes "get_rules_path e f = Inl x"
  shows "x = FileNotFoundError ''Could not find rules directory''"
  using assms unfolding get_rules_path_spec locator_spec_def by (simp split: option.splits)


lemma split_two_cases:
  assumes "length (split_str CHR ''/'' rule_path) = 2"
  obtains category framework where "split_str CHR ''/'' rule_path = [category, framework]"
proof -
  from assms obtain a rest where 1: "split_str CHR ''/'' rule_path = a # rest"
    by (cases "split_str CHR ''/'' rule_path") auto
  with assms obtain b rest' where 2: "rest = b # rest'" by (cases rest) auto
  with 1 assms have "rest' = []" by simp
  with 1 2 that show thesis by simp
qed

lemma fetch_try_cwd_raises:
  assumes "split_str CHR ''/'' rule_path = [category, framework]" and "getcwd e = Inl x"
  shows "fetch_try e rule_path s = (Inl x, s)"
  by (simp add: fetch_try_def assms)

lemma fetch_try_locator_raises:
  assumes "split_str CHR ''/'' rule_path = [category, framework]"
    and "getcwd e = Inr cwd" and "get_rules_path e (fs s) = Inl x"
  shows "fetch_try e rule_path s = (Inl x, s)"
  by (simp add: fetch_try_def assms Let_def)

lemma located_sources:
  assumes "get_rules_path e f = Inr rules_path"
  obtains g sp where "joinpath rules_path [category, ''general'', ''RULE.md''] = Inr g"
    and "joinpath rules_path [category, framework, ''RULE.md''] = Inr sp"
proof -
  have "rules_path \<noteq> Opaque" using assms by (rule get_rules_path_not_Opaque)
  then show thesis using joinpath_defined that by blast
qed

text \<open>Each way the body ends with \<^verbatim>\<open>click.Abort\<close> has one of the four messages last.\<close>

subsection \<open>The copy stage\<close>

lemma dest_distinct [simp]: "general_dest cwd \<noteq> specific_dest cwd"
  by (simp add: general_dest_def specific_dest_def)

lemma is_specific_copy_message [simp]: "is_specific_error (copy_message e src dest f)"
  by (simp add: copy_message_def)

lemma fetch_copy_fs:
  "fs (snd (fetch_copy e rule_path framework cwd g sp s2)) = copy_both e g sp cwd (fs s2)"
  by (simp add: fetch_copy_def copy_rule_file_if console_print_if copy_both_def copy_try_fst)


text \<open>
  The copy stage returns exactly when both copies can be made and the two messages
  that hold a value of the run render.
\<close>

lemma fetch_copy_returns:
  "(\<exists>u. fst (fetch_copy e rule_path framework cwd g sp s2) = Inr u) \<longleftrightarrow>
     can_copy e (fs s2) g (general_dest cwd)
     \<and> can_copy e (snd (copy_rule_file_try e g (general_dest cwd) (fs s2))) sp (specific_dest cwd)
     \<and> renders e (CopiedFrameworkRule framework
                    [''.cursor'', ''rules'', ''code-patterns'', ''RULE.md''])
     \<and> renders e (SuccessfullyInstalled rule_path
                    [''.cursor'', ''rules'', ''general'', ''RULE.md'']
                    [''.cursor'', ''rules'', ''code-patterns'', ''RULE.md''])"
  by (simp add: fetch_copy_def copy_rule_file_if console_print_if)

text \<open>Each way the copy stage ends with \<^verbatim>\<open>click.Abort\<close> has the message of a failed copy last.\<close>

lemma fetch_copy_Abort:
  assumes "fetch_copy e rule_path framework cwd g sp s2 = (Inl Abort, s')"
  shows "\<exists>out m. is_specific_error m \<and> console s' = console s2 @ out @ [m]"
proof (cases "can_copy e (fs s2) g (general_dest cwd)")
  case False
  let ?m = "copy_message e g (general_dest cwd) (fs s2)"
  from assms False have "console s' = console s2 @ [] @ [?m]"
    by (auto simp: fetch_copy_def copy_rule_file_if split: if_splits)
  moreover have "is_specific_error ?m" by simp
  ultimately show ?thesis by blast
next
  case True
  let ?f3 = "snd (copy_rule_file_try e g (general_dest cwd) (fs s2))"
  let ?c = "CopiedGeneralRule [''.cursor'', ''rules'', ''general'', ''RULE.md'']"
  let ?m = "copy_message e sp (specific_dest cwd) ?f3"
  from assms True have "console s' = console s2 @ [?c] @ [?m]"
    by (auto simp: fetch_copy_def copy_rule_file_if console_print_if split: if_splits)
  moreover have "is_specific_error ?m" by simp
  ultimately show ?thesis by blast
qed

text \<open>Each way the body ends with \<^verbatim>\<open>click.Abort\<close> has one of the four messages last.\<close>

lemma fetch_try_abort_message:
  assumes ab: "fetch_try e rule_path s = (Inl Abort, s')" and nc: "getcwd e \<noteq> Inl Abort"
  shows "\<exists>out m. is_specific_error m \<and> console s' = console s @ out @ [m]"
proof (cases "length (split_str CHR ''/'' rule_path) = 2")
  case False
  from fetch_try_usage[OF False, of e s] ab
  have "is_specific_error InvalidRulePathFormat
        \<and> console s' = console s @ [] @ [InvalidRulePathFormat]" by auto
  then show ?thesis by blast
next
  case True
  then obtain category framework where
    split: "split_str CHR ''/'' rule_path = [category, framework]" by (rule split_two_cases)
  show ?thesis
  proof (cases "getcwd e")
    case (Inl x)
    from fetch_try_cwd_raises[OF split Inl, of s] ab have "x = Abort" by simp
    with Inl nc show ?thesis by simp
  next
    case cwd: (Inr cwd)
    show ?thesis
    proof (cases "get_rules_path e (fs s)")
      case (Inl x)
      from fetch_try_locator_raises[OF split cwd Inl] ab have "x = Abort" by simp
      with get_rules_path_error[OF Inl] show ?thesis by simp
    next
      case loc: (Inr rules_path)
      from loc obtain g sp where
        g: "joinpath rules_path [category, ''general'', ''RULE.md''] = Inr g" and
        sp: "joinpath rules_path [category, framework, ''RULE.md''] = Inr sp"
        by (rule located_sources)
      let ?s2 = "record_event (IsFile sp) (record_event (IsFile g) s)"
      have c2: "console ?s2 = console s" by (simp add: record_event_def)
      note run = fetch_try_located[OF split cwd loc g sp]
      show ?thesis
      proof (cases "is_file e (fs s) g")
        case False
        from ab False have "is_specific_error (GeneralRuleNotFound g)
            \<and> console s' = console s @ [] @ [GeneralRuleNotFound g]"
          unfolding run by (auto simp: print_then_raise_if record_event_def split: if_splits)
        then show ?thesis by blast
      next
        case gf: True
        show ?thesis
        proof (cases "is_file e (fs s) sp")
          case False
          from ab gf False have "is_specific_error (FrameworkRuleNotFound sp category)
              \<and> console s' = console s @ [] @ [FrameworkRuleNotFound sp category]"
            unfolding run by (auto simp: print_then_raise_if record_event_def split: if_splits)
          then show ?thesis by blast
        next
          case True
          with ab gf have "fetch_copy e rule_path framework cwd g sp ?s2 = (Inl Abort, s')"
            unfolding run by simp
          from fetch_copy_Abort[OF this] show ?thesis unfolding c2 .
        qed
      qed
    qed
  qed
qed

subsection \<open>A successful run\<close>

lemma general_source_shape:
  assumes "joinpath rules_path [category, ''general'', ''RULE.md''] = Inr (PathSrc p)"
  shows "\<exists>q. p = q @ [''general'', ''RULE.md'']"
proof (cases rules_path)
  case (PathSrc r)
  with assms have "p = path_join r category @ [''general'', ''RULE.md'']"
    by (simp add: path_join_def)
  then show ?thesis by blast
next
  case (Traversable r)
  with assms show ?thesis by simp
next
  case Opaque
  with assms show ?thesis by simp
qed

text \<open>
  The general source never leads to the specific destination: the place it leads to
  lies in a directory named \<^verbatim>\<open>general\<close>.
\<close>

lemma general_source_not_specific_dest:
  assumes "joinpath rules_path [category, ''general'', ''RULE.md''] = Inr g"
  shows "locate f g \<noteq> Some (specific_dest cwd)"
proof
  assume l: "locate f g = Some (specific_dest cwd)"
  then obtain p where src: "g = PathSrc p" by (cases g) simp_all
  from l have w: "walk f [] p = Inr (specific_dest cwd)"
    unfolding src by (simp split: sum.splits)
  from assms obtain q where "p = q @ [''general'', ''RULE.md'']"
    unfolding src using general_source_shape by blast
  with w have "walk f [] (q @ [''general'', ''RULE.md'']) = Inr (specific_dest cwd)" by simp
  then have "\<exists>m. specific_dest cwd = m @ [''general'', ''RULE.md'']"
    by (rule walk_two_names) simp_all
  then obtain m where "(cwd @ [''.cursor'', ''rules'']) @ [''code-patterns'', ''RULE.md'']
               = m @ [''general'', ''RULE.md'']"
    by (auto simp: specific_dest_def)
  then show False by (simp del: append_assoc)
qed


text \<open>A source that is a file reads the same before and after directories are created.\<close>

lemma read_bytes_mkdirs:
  assumes "is_file e f src"
  shows "read_bytes e (snd (mkdirs e f pre cs)) src = read_bytes e f src"
proof (rule read_bytes_same[OF assms keeps_refl keeps_mkdirs])
  fix q assume "locate f src = Some q"
  then obtain p where src: "src = PathSrc p" by (cases src) simp_all
  from assms obtain q' c where "locate f (PathSrc p) = Some q'" and "f q' = Some (File c)"
    unfolding src by (rule is_file_locate)
  with \<open>locate f src = Some q\<close> have c: "f q = Some (File c)" unfolding src by simp
  then have "snd (mkdirs e f pre cs) q = Some (File c)" by (rule mkdirs_preserve)
  with c show "snd (mkdirs e f pre cs) q = f q" by simp
qed



text \<open>
  The two copies, for sources that are files before the first one: what each copy
  reads and what the file system holds at the four places afterwards.
\<close>

lemma two_copies:
  assumes gf: "is_file e f g" and sf: "is_file e f sp"
    and c1: "can_copy e f g (general_dest cwd)"
    and c2: "can_copy e (snd (copy_rule_file_try e g (general_dest cwd) f)) sp (specific_dest cwd)"
    and ns: "locate f g \<noteq> Some (specific_dest cwd)"
  shows "\<exists>a b. read_bytes e f g = Inr a
           \<and> copy_both e g sp cwd f (general_dest cwd) = Some (File a)
           \<and> node_of e (copy_both e g sp cwd f) g = Some (File a)
           \<and> copy_both e g sp cwd f (specific_dest cwd) = Some (File b)
           \<and> node_of e (copy_both e g sp cwd f) sp = Some (File b)
           \<and> (locate f sp \<noteq> Some (general_dest cwd) \<longrightarrow> read_bytes e f sp = Inr b)
           \<and> (locate f sp = Some (general_dest cwd) \<longrightarrow> b = a)"
proof -
  let ?gd = "general_dest cwd" and ?sd = "specific_dest cwd"
  let ?f1 = "snd (mkdirs e f [] (butlast ?gd))"
  from c1 obtain a where r1: "read_bytes e ?f1 g = Inr a" using can_copy_read by blast
  from c1 have w: "writable e f ?gd" by (simp add: can_copy_def)
  let ?f3 = "?f1(?gd \<mapsto> File a)"
  have f3: "snd (copy_rule_file_try e g ?gd f) = ?f3" by (rule copy_try_snd_ok[OF w r1])
  let ?f4 = "snd (mkdirs e ?f3 [] (butlast ?sd))"
  from c2 obtain b where r2: "read_bytes e ?f4 sp = Inr b" unfolding f3 using can_copy_read by blast
  from c2 have w2: "writable e ?f3 ?sd" unfolding f3 by (simp add: can_copy_def)
  let ?f5 = "?f4(?sd \<mapsto> File b)"
  have f5: "snd (copy_rule_file_try e sp ?sd ?f3) = ?f5" by (rule copy_try_snd_ok[OF w2 r2])
  have cb: "copy_both e g sp cwd f = ?f5"
    unfolding copy_both_def using c1 f3 f5 by (simp add: copy_try_fst)
  have k1: "keeps f ?f1" by (rule keeps_mkdirs)
  have k3: "keeps f ?f3" using keeps_copy_try[of f e g ?gd] unfolding f3 .
  have k4: "keeps f ?f4" using k3 keeps_mkdirs by (rule keeps_trans)
  have "keeps ?f3 ?f5" using keeps_copy_try[of ?f3 e sp ?sd] unfolding f5 .
  with k3 have k5: "keeps f ?f5" by (rule keeps_trans)
  have r0: "read_bytes e f g = Inr a" using r1 unfolding read_bytes_mkdirs[OF gf] .
  have g3: "?f3 ?gd = Some (File a)" by simp
  then have g4: "?f4 ?gd = Some (File a)" by (rule mkdirs_preserve)
  then have g5: "?f5 ?gd = Some (File a)" using dest_distinct[of cwd] by simp
  have s5: "?f5 ?sd = Some (File b)" by simp
  have ng: "node_of e ?f5 g = Some (File a)"
  proof (rule node_of_located[OF gf k5 _ r1 k1])
    fix q assume l: "locate f g = Some q"
    with ns have qs: "q \<noteq> ?sd" by auto
    from read_bytes_at(1)[OF gf k1 r1 l] have "?f1 q = Some (File a)" .
    then have "?f3 q = Some (File a)" by simp
    then have "?f4 q = Some (File a)" by (rule mkdirs_preserve)
    with qs show "?f5 q = Some (File a)" by simp
  qed
  have at4: "\<And>q. locate f sp = Some q \<Longrightarrow> ?f4 q = Some (File b)"
    by (rule read_bytes_at(1)[OF sf k4 r2])
  have nsp: "node_of e ?f5 sp = Some (File b)"
  proof (rule node_of_located[OF sf k5 _ r2 k4])
    fix q assume "locate f sp = Some q"
    then have "?f4 q = Some (File b)" by (rule at4)
    then show "?f5 q = Some (File b)" by simp
  qed
  have other: "read_bytes e f sp = Inr b" if "locate f sp \<noteq> Some ?gd"
  proof -
    have "read_bytes e f sp = read_bytes e ?f4 sp"
    proof (rule read_bytes_same[OF sf k4 keeps_refl])
      fix q assume l: "locate f sp = Some q"
      with that have qg: "q \<noteq> ?gd" by auto
      from l obtain p where src: "sp = PathSrc p" by (cases sp) simp_all
      from sf obtain q' c where "locate f (PathSrc p) = Some q'" and "f q' = Some (File c)"
        unfolding src by (rule is_file_locate)
      with l have c: "f q = Some (File c)" unfolding src by simp
      then have "?f1 q = Some (File c)" by (rule mkdirs_preserve)
      with qg have "?f3 q = Some (File c)" by simp
      then have "?f4 q = Some (File c)" by (rule mkdirs_preserve)
      with c show "f q = ?f4 q" by simp
    qed
    with r2 show ?thesis by simp
  qed
  have same: "b = a" if "locate f sp = Some ?gd"
    using at4[OF that] g4 by simp
  show ?thesis
    unfolding cb using r0 g5 ng s5 nsp other same by blast
qed


subsection \<open>Copying again\<close>

lemma dirs_exist_free_way: "dirs_exist f pre cs \<Longrightarrow> free_way e f pre cs"
  by (induction cs arbitrary: pre) (simp_all add: blocked_def)

lemma copy_try_depends:
  assumes "mkdirs e f' [] (butlast d) = mkdirs e f [] (butlast d)"
  shows "copy_rule_file_try e src d f' = copy_rule_file_try e src d f"
  unfolding copy_rule_file_try_unfold mkdir_parents_def assms ..

lemma copy_try_fail_idem:
  assumes "\<not> can_copy e f src d"
  shows "copy_rule_file_try e src d (snd (copy_rule_file_try e src d f))
           = copy_rule_file_try e src d f"
  unfolding copy_try_snd_fail[OF assms] by (rule copy_try_depends) (rule mkdirs_idem)

text \<open>A copy onto a destination that already holds the bytes of the source changes nothing.\<close>

lemma copy_stable:
  assumes ne: "d \<noteq> []" and de: "dirs_exist f [] (butlast d)"
    and fd: "f d = Some (File c)" and nd: "\<not> denied e d"
    and rd: "read_bytes e f src = Inr c"
  shows "copy_rule_file_try e src d f = (Inr True, f)"
proof -
  have w: "writable e f d"
    using ne nd fd dirs_exist_free_way[OF de, of e] by (simp add: writable_def)
  have m: "mkdirs e f [] (butlast d) = (None, f)" using de by (rule mkdirs_when_dirs_exist)
  have r: "read_bytes e (snd (mkdirs e f [] (butlast d))) src = Inr c" unfolding m using rd by simp
  have "f(d \<mapsto> File c) = f" using fd by (rule map_upd_triv)
  then show ?thesis unfolding copy_try_ok[OF w r] m by simp
qed

lemma keeps_copy_both: "keeps f (copy_both e g sp cwd f)"
proof (cases "fst (copy_rule_file_try e g (general_dest cwd) f) = Inr True")
  case True
  have "keeps f (snd (copy_rule_file_try e g (general_dest cwd) f))" by (rule keeps_copy_try)
  moreover have "keeps (snd (copy_rule_file_try e g (general_dest cwd) f))
                   (snd (copy_rule_file_try e sp (specific_dest cwd)
                           (snd (copy_rule_file_try e g (general_dest cwd) f))))"
    by (rule keeps_copy_try)
  ultimately show ?thesis unfolding copy_both_def using True by (simp add: keeps_trans)
next
  case False
  then show ?thesis unfolding copy_both_def by (simp add: keeps_copy_try)
qed

lemma copy_both_keeps_is_file:
  assumes "is_file e f src"
  shows "is_file e (copy_both e g sp cwd f) src"
  using assms keeps_copy_both by (rule is_file_keeps(1))

text \<open>
  The two copies made a second time change nothing, for sources that were files before
  the first time.
\<close>

lemma copy_both_idem:
  assumes gf: "is_file e f g" and sf: "is_file e f sp"
    and ns: "locate f g \<noteq> Some (specific_dest cwd)"
  shows "copy_both e g sp cwd (copy_both e g sp cwd f) = copy_both e g sp cwd f"
proof -
  let ?gd = "general_dest cwd" and ?sd = "specific_dest cwd"
  let ?f1 = "snd (mkdirs e f [] (butlast ?gd))"
  show ?thesis
  proof (cases "can_copy e f g ?gd")
    case False
    have 1: "fst (copy_rule_file_try e g ?gd f) \<noteq> Inr True"
      using False by (simp add: copy_try_fst)
    have cb: "copy_both e g sp cwd f = snd (copy_rule_file_try e g ?gd f)"
      unfolding copy_both_def using 1 by simp
    have again: "copy_rule_file_try e g ?gd (snd (copy_rule_file_try e g ?gd f))
                   = copy_rule_file_try e g ?gd f"
      using False by (rule copy_try_fail_idem)
    show ?thesis unfolding cb unfolding copy_both_def again using 1 by simp
  next
    case True
    then obtain a where r1: "read_bytes e ?f1 g = Inr a" using can_copy_read by blast
    from True have w: "writable e f ?gd" by (simp add: can_copy_def)
    let ?f3 = "?f1(?gd \<mapsto> File a)"
    let ?f4 = "snd (mkdirs e ?f3 [] (butlast ?sd))"
    have G: "copy_rule_file_try e g ?gd f = (Inr True, ?f3)" by (rule copy_try_ok[OF w r1])
    from w have fw: "free_way e f [] (butlast ?gd)" and ngd: "f ?gd \<noteq> Some Dir"
      and dg: "\<not> denied e ?gd" by (simp_all add: writable_def)
    have gne: "?gd \<noteq> []" and sne: "?sd \<noteq> []" by (simp_all add: general_dest_def specific_dest_def)
    have k1: "keeps f ?f1" by (rule keeps_mkdirs)
    have k3: "keeps f ?f3" using keeps_copy_try[of f e g ?gd] unfolding G by simp
    have k4: "keeps f ?f4" using k3 keeps_mkdirs by (rule keeps_trans)
    \<comment> \<open>the directories above the general destination, after the first copy\<close>
    have "fst (mkdirs e f [] (butlast ?gd)) = None" using fw by (simp add: mkdirs_ok_iff)
    then have d1: "dirs_exist ?f1 [] (butlast ?gd)" by (rule mkdirs_dirs_exist)
    have "?f1 ?gd = f ?gd" by (rule mkdirs_longer) (simp add: gne)
    then have n1: "?f1 ?gd \<noteq> Some Dir" using ngd by simp
    have d3: "dirs_exist ?f3 [] (butlast ?gd)"
    proof (rule dirs_exist_mono[OF d1])
      fix q assume "?f1 q = Some Dir"
      with n1 show "?f3 q = Some Dir" by auto
    qed
    have d4: "dirs_exist ?f4 [] (butlast ?gd)"
      using d3 by (rule dirs_exist_mono) (rule mkdirs_preserve)
    have g3: "?f3 ?gd = Some (File a)" by simp
    then have g4: "?f4 ?gd = Some (File a)" by (rule mkdirs_preserve)
    \<comment> \<open>the place the general source leads to holds \<open>a\<close>\<close>
    have at4: "?f4 q = Some (File a)" if l: "locate f g = Some q" for q
    proof -
      from read_bytes_at(1)[OF gf k1 r1 l] have "?f1 q = Some (File a)" .
      then have "?f3 q = Some (File a)" by simp
      then show ?thesis by (rule mkdirs_preserve)
    qed
    have r4: "read_bytes e ?f4 g = Inr a"
      using gf k1 k4 r1 at4 by (rule read_bytes_transfer)
    show ?thesis
    proof (cases "can_copy e ?f3 sp ?sd")
      case False
      have S: "snd (copy_rule_file_try e sp ?sd ?f3) = ?f4" using False by (rule copy_try_snd_fail)
      have cb: "copy_both e g sp cwd f = ?f4" unfolding copy_both_def G using S by simp
      have G4: "copy_rule_file_try e g ?gd ?f4 = (Inr True, ?f4)"
        using gne d4 g4 dg r4 by (rule copy_stable)
      have "copy_rule_file_try e sp ?sd ?f4 = copy_rule_file_try e sp ?sd ?f3"
        by (rule copy_try_depends) (rule mkdirs_idem)
      then have S4: "snd (copy_rule_file_try e sp ?sd ?f4) = ?f4" using S by simp
      show ?thesis unfolding cb unfolding copy_both_def G4 using S4 by simp
    next
      case c2: True
      then obtain b where r2: "read_bytes e ?f4 sp = Inr b" using can_copy_read by blast
      from c2 have w2: "writable e ?f3 ?sd" by (simp add: can_copy_def)
      let ?f5 = "?f4(?sd \<mapsto> File b)"
      have S: "snd (copy_rule_file_try e sp ?sd ?f3) = ?f5" by (rule copy_try_snd_ok[OF w2 r2])
      have cb: "copy_both e g sp cwd f = ?f5" unfolding copy_both_def G using S by simp
      have "keeps ?f3 ?f5" using keeps_copy_try[of ?f3 e sp ?sd] unfolding S .
      with k3 have k5: "keeps f ?f5" by (rule keeps_trans)
      from w2 have fw2: "free_way e ?f3 [] (butlast ?sd)" and nsd: "?f3 ?sd \<noteq> Some Dir"
        and ds: "\<not> denied e ?sd" by (simp_all add: writable_def)
      have "?f4 ?sd = ?f3 ?sd" by (rule mkdirs_longer) (simp add: sne)
      then have n4: "?f4 ?sd \<noteq> Some Dir" using nsd by simp
      have keep: "\<And>q. ?f4 q = Some Dir \<Longrightarrow> ?f5 q = Some Dir"
      proof -
        fix q assume "?f4 q = Some Dir"
        with n4 show "?f5 q = Some Dir" by auto
      qed
      have d5: "dirs_exist ?f5 [] (butlast ?gd)" using d4 keep by (rule dirs_exist_mono)
      have g5: "?f5 ?gd = Some (File a)" using g4 dest_distinct[of cwd] by simp
      have r5: "read_bytes e ?f5 g = Inr a"
      proof (rule read_bytes_transfer[OF gf k1 k5 r1])
        fix q assume l: "locate f g = Some q"
        with ns have "q \<noteq> ?sd" by auto
        with at4[OF l] show "?f5 q = Some (File a)" by simp
      qed
      have G5: "copy_rule_file_try e g ?gd ?f5 = (Inr True, ?f5)"
        using gne d5 g5 dg r5 by (rule copy_stable)
      have "fst (mkdirs e ?f3 [] (butlast ?sd)) = None" using fw2 by (simp add: mkdirs_ok_iff)
      then have "dirs_exist ?f4 [] (butlast ?sd)" by (rule mkdirs_dirs_exist)
      then have e5: "dirs_exist ?f5 [] (butlast ?sd)" using keep by (rule dirs_exist_mono)
      have s5: "?f5 ?sd = Some (File b)" by simp
      have q5: "read_bytes e ?f5 sp = Inr b"
      proof (rule read_bytes_transfer[OF sf k4 k5 r2])
        fix q assume l: "locate f sp = Some q"
        from read_bytes_at(1)[OF sf k4 r2 l] show "?f5 q = Some (File b)" by simp
      qed
      have S5: "copy_rule_file_try e sp ?sd ?f5 = (Inr True, ?f5)"
        using sne e5 s5 ds q5 by (rule copy_stable)
      show ?thesis unfolding cb unfolding copy_both_def G5 using S5 by simp
    qed
  qed
qed

subsection \<open>Running again\<close>

lemma fetch_fs_usage:
  assumes "length (split_str CHR ''/'' rule_path) \<noteq> 2"
  shows "fs (snd (fetch e rule_path s)) = fs s"
  unfolding fetch_fs fetch_try_usage[OF assms] by simp

lemma fetch_fs_cwd:
  assumes "split_str CHR ''/'' rule_path = [category, framework]" and "getcwd e = Inl x"
  shows "fs (snd (fetch e rule_path s)) = fs s"
  unfolding fetch_fs fetch_try_cwd_raises[OF assms] by simp

lemma fetch_fs_locator:
  assumes "split_str CHR ''/'' rule_path = [category, framework]"
    and "getcwd e = Inr cwd" and "get_rules_path e (fs s) = Inl x"
  shows "fs (snd (fetch e rule_path s)) = fs s"
  unfolding fetch_fs fetch_try_locator_raises[OF assms] by simp

lemma fetch_fs_missing:
  assumes "split_str CHR ''/'' rule_path = [category, framework]"
    and "getcwd e = Inr cwd"
    and "get_rules_path e (fs s) = Inr rules_path"
    and "joinpath rules_path [category, ''general'', ''RULE.md''] = Inr g"
    and "joinpath rules_path [category, framework, ''RULE.md''] = Inr sp"
    and "\<not> (is_file e (fs s) g \<and> is_file e (fs s) sp)"
  shows "fs (snd (fetch e rule_path s)) = fs s" and "exit_code (fetch e rule_path s) = 1"
  using assms(6)
  unfolding fetch_fs fetch_exit fetch_try_located[OF assms(1-5)]
  by (auto simp: print_then_raise_if record_event_def)

text \<open>The file system after a run that reached the copy stage, and when the run succeeds.\<close>

lemma fetch_fs_copied:
  assumes split: "split_str CHR ''/'' rule_path = [category, framework]"
    and cwd: "getcwd e = Inr cwd"
    and loc: "get_rules_path e (fs s) = Inr rules_path"
    and g: "joinpath rules_path [category, ''general'', ''RULE.md''] = Inr g"
    and sp: "joinpath rules_path [category, framework, ''RULE.md''] = Inr sp"
    and gf: "is_file e (fs s) g" and sf: "is_file e (fs s) sp"
  shows "fs (snd (fetch e rule_path s)) = copy_both e g sp cwd (fs s)"
    and "exit_code (fetch e rule_path s) = 0 \<Longrightarrow>
           can_copy e (fs s) g (general_dest cwd)
           \<and> can_copy e (snd (copy_rule_file_try e g (general_dest cwd) (fs s))) sp
                (specific_dest cwd)"
proof -
  let ?s2 = "record_event (IsFile sp) (record_event (IsFile g) s)"
  have f2: "fs ?s2 = fs s" by (simp add: record_event_def)
  have run: "fetch_try e rule_path s = fetch_copy e rule_path framework cwd g sp ?s2"
    using gf sf by (simp add: fetch_try_located[OF split cwd loc g sp])
  show "fs (snd (fetch e rule_path s)) = copy_both e g sp cwd (fs s)"
    unfolding fetch_fs run fetch_copy_fs f2 ..
  assume "exit_code (fetch e rule_path s) = 0"
  then have "\<exists>u. fst (fetch_copy e rule_path framework cwd g sp ?s2) = Inr u"
    unfolding fetch_exit run by (simp split: sum.splits)
  then show "can_copy e (fs s) g (general_dest cwd)
           \<and> can_copy e (snd (copy_rule_file_try e g (general_dest cwd) (fs s))) sp
                (specific_dest cwd)"
    unfolding fetch_copy_returns f2 by simp
qed

text \<open>
  Running the command again, with the locator finding the same rule directory, leaves
  the file system as the first run left it, whether that run succeeded or not.
\<close>

lemma fetch_fs_idempotent:
  assumes U: "get_rules_path e (fs (snd (fetch e rule_path s))) = get_rules_path e (fs s)"
  shows "fs (snd (fetch e rule_path (snd (fetch e rule_path s)))) = fs (snd (fetch e rule_path s))"
proof (cases "length (split_str CHR ''/'' rule_path) = 2")
  case False
  then show ?thesis by (simp add: fetch_fs_usage)
next
  case True
  then obtain category framework where
    split: "split_str CHR ''/'' rule_path = [category, framework]" by (rule split_two_cases)
  let ?s1 = "snd (fetch e rule_path s)"
  show ?thesis
  proof (cases "getcwd e")
    case (Inl x)
    show ?thesis by (simp add: fetch_fs_cwd[OF split Inl])
  next
    case cwd: (Inr cwd)
    show ?thesis
    proof (cases "get_rules_path e (fs s)")
      case (Inl x)
      have 1: "fs ?s1 = fs s" by (rule fetch_fs_locator[OF split cwd Inl])
      have "get_rules_path e (fs ?s1) = Inl x" using U Inl by simp
      from fetch_fs_locator[OF split cwd this] show ?thesis .
    next
      case loc: (Inr rules_path)
      have loc1: "get_rules_path e (fs ?s1) = Inr rules_path" using U loc by simp
      from loc obtain g sp where
        g: "joinpath rules_path [category, ''general'', ''RULE.md''] = Inr g" and
        sp: "joinpath rules_path [category, framework, ''RULE.md''] = Inr sp"
        by (rule located_sources)
      show ?thesis
      proof (cases "is_file e (fs s) g \<and> is_file e (fs s) sp")
        case False
        have 1: "fs ?s1 = fs s" by (rule fetch_fs_missing(1)[OF split cwd loc g sp False])
        have "\<not> (is_file e (fs ?s1) g \<and> is_file e (fs ?s1) sp)" using False 1 by simp
        from fetch_fs_missing(1)[OF split cwd loc1 g sp this] show ?thesis .
      next
        case True
        then have gf: "is_file e (fs s) g" and sf: "is_file e (fs s) sp" by simp_all
        have 1: "fs ?s1 = copy_both e g sp cwd (fs s)"
          by (rule fetch_fs_copied(1)[OF split cwd loc g sp gf sf])
        have gf1: "is_file e (fs ?s1) g" unfolding 1 using gf by (rule copy_both_keeps_is_file)
        have sf1: "is_file e (fs ?s1) sp" unfolding 1 using sf by (rule copy_both_keeps_is_file)
        have "fs (snd (fetch e rule_path ?s1)) = copy_both e g sp cwd (fs ?s1)"
          by (rule fetch_fs_copied(1)[OF split cwd loc1 g sp gf1 sf1])
        also have "\<dots> = copy_both e g sp cwd (fs s)"
          unfolding 1 using gf sf general_source_not_specific_dest[OF g]
          by (rule copy_both_idem)
        finally show ?thesis unfolding 1 .
      qed
    qed
  qed
qed


subsection \<open>No rollback\<close>




subsection \<open>Missing rule files\<close>

text \<open>
  When a rule file is missing the command ends with exit status 1 after the two
  existence checks and copies nothing; its message is shown when it renders.
\<close>

lemma fetch_general_rule_missing:
  assumes "split_str CHR ''/'' rule_path = [category, framework]"
    and "getcwd e = Inr cwd"
    and "get_rules_path e (fs s) = Inr rules_path"
    and "joinpath rules_path [category, ''general'', ''RULE.md''] = Inr g"
    and "joinpath rules_path [category, framework, ''RULE.md''] = Inr sp"
    and "\<not> is_file e (fs s) g"
  shows "exit_code (fetch e rule_path s) = 1"
    and "trace (snd (fetch e rule_path s)) = trace s @ [IsFile g, IsFile sp]"
    and "fs (snd (fetch e rule_path s)) = fs s"
    and "renders e (GeneralRuleNotFound g) \<Longrightarrow>
         console (snd (fetch e rule_path s)) =
           console s @ [GeneralRuleNotFound g, UnexpectedError []]"
proof -
  let ?s2 = "record_event (IsFile sp) (record_event (IsFile g) s)"
  have run: "fetch_try e rule_path s = print_then_raise e (GeneralRuleNotFound g) Abort ?s2"
    using assms(6) by (simp add: fetch_try_located[OF assms(1-5)])
  show "exit_code (fetch e rule_path s) = 1"
    unfolding fetch_exit run by (simp add: print_then_raise_if)
  show "trace (snd (fetch e rule_path s)) = trace s @ [IsFile g, IsFile sp]"
    unfolding fetch_trace run by (simp add: record_event_def)
  show "fs (snd (fetch e rule_path s)) = fs s"
    unfolding fetch_fs run by (simp add: record_event_def)
  assume r: "renders e (GeneralRuleNotFound g)"
  have "fetch_try e rule_path s =
          (Inl Abort, ?s2\<lparr>console := console ?s2 @ [GeneralRuleNotFound g]\<rparr>)"
    unfolding run using r by (rule print_then_raise_renders)
  from fetch_abort[OF this]
  show "console (snd (fetch e rule_path s)) =
          console s @ [GeneralRuleNotFound g, UnexpectedError []]"
    by (simp add: record_event_def)
qed

lemma fetch_framework_rule_missing:
  assumes "split_str CHR ''/'' rule_path = [category, framework]"
    and "getcwd e = Inr cwd"
    and "get_rules_path e (fs s) = Inr rules_path"
    and "joinpath rules_path [category, ''general'', ''RULE.md''] = Inr g"
    and "joinpath rules_path [category, framework, ''RULE.md''] = Inr sp"
    and "is_file e (fs s) g"
    and "\<not> is_file e (fs s) sp"
  shows "exit_code (fetch e rule_path s) = 1"
    and "trace (snd (fetch e rule_path s)) = trace s @ [IsFile g, IsFile sp]"
    and "fs (snd (fetch e rule_path s)) = fs s"
    and "renders e (FrameworkRuleNotFound sp category) \<Longrightarrow>
         console (snd (fetch e rule_path s)) =
           console s @ [FrameworkRuleNotFound sp category, UnexpectedError []]"
proof -
  let ?s2 = "record_event (IsFile sp) (record_event (IsFile g) s)"
  have run: "fetch_try e rule_path s =
               print_then_raise e (FrameworkRuleNotFound sp category) Abort ?s2"
    using assms(6,7) by (simp add: fetch_try_located[OF assms(1-5)])
  show "exit_code (fetch e rule_path s) = 1"
    unfolding fetch_exit run by (simp add: print_then_raise_if)
  show "trace (snd (fetch e rule_path s)) = trace s @ [IsFile g, IsFile sp]"
    unfolding fetch_trace run by (simp add: record_event_def)
  show "fs (snd (fetch e rule_path s)) = fs s"
    unfolding fetch_fs run by (simp add: record_event_def)
  assume r: "renders e (FrameworkRuleNotFound sp category)"
  have "fetch_try e rule_path s =
          (Inl Abort, ?s2\<lparr>console := console ?s2 @ [FrameworkRuleNotFound sp category]\<rparr>)"
    unfolding run using r by (rule print_then_raise_renders)
  from fetch_abort[OF this]
  show "console (snd (fetch e rule_path s)) =
          console s @ [FrameworkRuleNotFound sp category, UnexpectedError []]"
    by (simp add: record_event_def)
qed


section \<open>The claims\<close>







text \<open>
  C4. \<^verbatim>\<open>get_rules_path\<close> returns the first of the candidates, in the order package
  resources, next to the tool, one level above, that is a directory; an exception of the
  package lookup only removes the first candidate; and it raises "Could not find rules
  directory" exactly when no candidate is a directory.
\<close>

theorem get_rules_path_first_match:
  "get_rules_path e f =
     (case find (is_dir e f) (locator_candidates e) of
        Some r \<Rightarrow> Inr r
      | None \<Rightarrow> Inl (FileNotFoundError ''Could not find rules directory''))
   \<and> (get_rules_path e f = Inl (FileNotFoundError ''Could not find rules directory''))
       = list_all (\<lambda>c. \<not> is_dir e f c) (locator_candidates e)
   \<and> locator_candidates (e\<lparr>resource_files := Inl x\<rparr>) =
       [PathSrc (package_dir e @ [''rules'']), PathSrc (butlast (package_dir e) @ [''rules''])]"
proof -
  have a: "get_rules_path e f = locator_spec e f" by (rule get_rules_path_spec)
  have b: "(find (is_dir e f) (locator_candidates e) = None)
           = list_all (\<lambda>c. \<not> is_dir e f c) (locator_candidates e)"
    by (auto simp: find_None_iff list_all_iff)
  show ?thesis unfolding a using b
    by (auto simp: locator_spec_def locator_candidates_def split: option.splits)
qed

text \<open>
  C7 fails on the code. The handler of \<^verbatim>\<open>copy_rule_file\<close> prints the destination and the
  text of the exception as console markup. For a bare object as source and the
  destination \<^verbatim>\<open>/proj/a[/b]/RULE.md\<close> the body raises \<^verbatim>\<open>AttributeError\<close>, the handler's
  message holds the closing tag \<^verbatim>\<open>[/b]\<close> with only \<^verbatim>\<open>[red]\<close> open, and \<^verbatim>\<open>console.print\<close>
  raises \<^verbatim>\<open>MarkupError\<close> out of the function: nothing is printed and nothing returned.
\<close>

theorem copy_rule_file_raises:
  "fst (copy_rule_file_try demo_env Opaque [''proj'', ''a['', ''b]'', ''RULE.md''] (fs demo_state))
     = Inl (AttributeError (CHR 0x27 # ''object' object has no attribute 'read_bytes'' @ [CHR 0x27]))
   \<and> markup demo_env
        (ErrorCopyingFile [''proj'', ''a['', ''b]'', ''RULE.md'']
           (CHR 0x27 # ''object' object has no attribute 'read_bytes'' @ [CHR 0x27]))
     = ''[red]Error copying file to /proj/a[/b]/RULE.md: 'object' object has no attribute 'read_bytes'[/red]''
   \<and> fst (copy_rule_file demo_env Opaque [''proj'', ''a['', ''b]'', ''RULE.md''] demo_state)
     = Inl (MarkupError ''closing tag '[/b]' at position 34 doesn't match any open tag'')
   \<and> console (snd (copy_rule_file demo_env Opaque [''proj'', ''a['', ''b]'', ''RULE.md'']
                      demo_state)) = []"
  by code_simp

text \<open>
  C5 fails on the code. With the tool installed in a directory named \<^verbatim>\<open>tool[\<close> and the
  rule path \<^verbatim>\<open>a]/x\<close> the general rule file does not exist, but its path
  \<^verbatim>\<open>/opt/tool[/rules/a]/general/RULE.md\<close> holds the closing tag \<^verbatim>\<open>[/rules/a]\<close>: the "General
  rule not found" message raises \<^verbatim>\<open>MarkupError\<close> instead of being shown, the handler's
  "Unexpected error" message, which quotes that tag, raises again, and the command ends
  with nothing printed.
\<close>

theorem fetch_general_rule_message_lost:
  "get_rules_path bracket_env (fs bracket_install) = Inr (PathSrc [''opt'', ''tool['', ''rules''])
   \<and> \<not> is_file bracket_env (fs bracket_install)
         (PathSrc [''opt'', ''tool['', ''rules'', ''a]'', ''general'', ''RULE.md''])
   \<and> fst (fetch_try bracket_env ''a]/x'' bracket_install)
     = Inl (MarkupError ''closing tag '[/rules/a]' at position 44 doesn't match any open tag'')
   \<and> fst (fetch bracket_env ''a]/x'' bracket_install)
     = Inl (MarkupError ''closing tag '[/rules/a]' at position 42 doesn't match any open tag'')
   \<and> console (snd (fetch bracket_env ''a]/x'' bracket_install)) = []
   \<and> exit_code (fetch bracket_env ''a]/x'' bracket_install) = 1"
  by code_simp

text \<open>
  C6 fails on the code. The rule tree holds \<^verbatim>\<open>x[/general/RULE.md\<close> and no framework \<^verbatim>\<open>y]\<close>.
  For the rule path \<^verbatim>\<open>x[/y]\<close> the general rule exists and the framework rule does not,
  but the path in the "Framework rule not found" message holds the closing tag \<^verbatim>\<open>[/y]\<close>:
  that message and, after it, the handler's "Unexpected error" message raise
  \<^verbatim>\<open>MarkupError\<close>, and the command ends with nothing printed.
\<close>

theorem fetch_framework_rule_message_lost:
  "is_file demo_env (fs bracket_state)
       (PathSrc [''opt'', ''tool'', ''rules'', ''x['', ''general'', ''RULE.md''])
   \<and> \<not> is_file demo_env (fs bracket_state)
         (PathSrc [''opt'', ''tool'', ''rules'', ''x['', ''y]'', ''RULE.md''])
   \<and> fst (fetch_try demo_env ''x[/y]'' bracket_state)
     = Inl (MarkupError ''closing tag '[/y]' at position 54 doesn't match any open tag'')
   \<and> fst (fetch demo_env ''x[/y]'' bracket_state)
     = Inl (MarkupError ''closing tag '[/y]' at position 42 doesn't match any open tag'')
   \<and> console (snd (fetch demo_env ''x[/y]'' bracket_state)) = []
   \<and> exit_code (fetch demo_env ''x[/y]'' bracket_state) = 1"
  by code_simp

text \<open>
  C10. Whenever the body of \<^verbatim>\<open>fetch\<close> ends with its own \<^verbatim>\<open>click.Abort\<close>, the last message
  it printed is one of the four specific ones (usage error, general rule not found,
  framework rule not found, error copying), and the catch-all handler then prints
  "Unexpected error" with the empty text of the abort before the command ends with
  exit status 1: the specific message is never the last one.
\<close>

theorem intentional_failure_reported_twice:
  assumes "fetch_try e rule_path s = (Inl Abort, s')" and "getcwd e \<noteq> Inl Abort"
  shows "\<exists>out m. is_specific_error m
           \<and> console s' = console s @ out @ [m]
           \<and> console (snd (fetch e rule_path s)) = console s @ out @ [m, UnexpectedError []]
           \<and> exit_code (fetch e rule_path s) = 1"
proof -
  from fetch_try_abort_message[OF assms] obtain out m where
    1: "is_specific_error m" and 2: "console s' = console s @ out @ [m]" by blast
  note 3 = fetch_abort[OF assms(1)]
  have "console (snd (fetch e rule_path s)) = console s @ out @ [m, UnexpectedError []]"
    unfolding 3 using 2 by simp
  moreover have "exit_code (fetch e rule_path s) = 1" unfolding 3 by simp
  ultimately show ?thesis using 1 2 by blast
qed

theorem intentional_failure_reported_twice_witness:
  "fetch_try demo_env ''django'' demo_state =
     (Inl Abort, demo_state\<lparr>console := console demo_state @ [InvalidRulePathFormat]\<rparr>)
   \<and> getcwd demo_env \<noteq> Inl Abort
   \<and> (\<exists>out m. is_specific_error m
         \<and> console (demo_state\<lparr>console := console demo_state @ [InvalidRulePathFormat]\<rparr>) =
             console demo_state @ out @ [m]
         \<and> console (snd (fetch demo_env ''django'' demo_state)) =
             console demo_state @ out @ [m, UnexpectedError []]
         \<and> exit_code (fetch demo_env ''django'' demo_state) = 1)"
proof -
  have h1: "fetch_try demo_env ''django'' demo_state =
              (Inl Abort, demo_state\<lparr>console := console demo_state @ [InvalidRulePathFormat]\<rparr>)"
    by (rule fetch_try_usage) simp
  have h2: "getcwd demo_env \<noteq> Inl Abort" by (simp add: demo_env_def)
  show ?thesis using h1 h2 intentional_failure_reported_twice[OF h1 h2] by simp
qed






text \<open>
  C8. A run that succeeds where both destination files already exist leaves in each
  the bytes of its source, whatever it held before. And when the locator finds the same
  rule directory again, a second run leaves the file system exactly as the first run
  left it.
\<close>

theorem fetch_overwrites_and_is_idempotent:
  "(split_str CHR ''/'' rule_path = [category, framework]
      \<and> getcwd e = Inr cwd
      \<and> get_rules_path e (fs s) = Inr rules_path
      \<and> joinpath rules_path [category, ''general'', ''RULE.md''] = Inr g
      \<and> joinpath rules_path [category, framework, ''RULE.md''] = Inr sp
      \<and> fs s (general_dest cwd) = Some (File old_general)
      \<and> fs s (specific_dest cwd) = Some (File old_specific)
      \<and> exit_code (fetch e rule_path s) = 0
    \<longrightarrow> (\<exists>a b. read_bytes e (fs s) g = Inr a
             \<and> fs (snd (fetch e rule_path s)) (general_dest cwd) = Some (File a)
             \<and> node_of e (fs (snd (fetch e rule_path s))) g = Some (File a)
             \<and> fs (snd (fetch e rule_path s)) (specific_dest cwd) = Some (File b)
             \<and> node_of e (fs (snd (fetch e rule_path s))) sp = Some (File b)))
   \<and> (get_rules_path e (fs (snd (fetch e rule_path s))) = get_rules_path e (fs s)
    \<longrightarrow> fs (snd (fetch e rule_path (snd (fetch e rule_path s))))
          = fs (snd (fetch e rule_path s)))"
proof (intro conjI impI)
  assume h: "split_str CHR ''/'' rule_path = [category, framework]
      \<and> getcwd e = Inr cwd
      \<and> get_rules_path e (fs s) = Inr rules_path
      \<and> joinpath rules_path [category, ''general'', ''RULE.md''] = Inr g
      \<and> joinpath rules_path [category, framework, ''RULE.md''] = Inr sp
      \<and> fs s (general_dest cwd) = Some (File old_general)
      \<and> fs s (specific_dest cwd) = Some (File old_specific)
      \<and> exit_code (fetch e rule_path s) = 0"
  then have split: "split_str CHR ''/'' rule_path = [category, framework]"
    and cwd: "getcwd e = Inr cwd"
    and loc: "get_rules_path e (fs s) = Inr rules_path"
    and g: "joinpath rules_path [category, ''general'', ''RULE.md''] = Inr g"
    and sp: "joinpath rules_path [category, framework, ''RULE.md''] = Inr sp"
    and ok: "exit_code (fetch e rule_path s) = 0"
    by simp_all
  have files: "is_file e (fs s) g \<and> is_file e (fs s) sp"
  proof (rule ccontr)
    assume "\<not> (is_file e (fs s) g \<and> is_file e (fs s) sp)"
    from fetch_fs_missing(2)[OF split cwd loc g sp this] ok show False by simp
  qed
  then have gf: "is_file e (fs s) g" and sf: "is_file e (fs s) sp" by simp_all
  from fetch_fs_copied(2)[OF split cwd loc g sp gf sf ok] have
    c1: "can_copy e (fs s) g (general_dest cwd)"
    and c2: "can_copy e (snd (copy_rule_file_try e g (general_dest cwd) (fs s))) sp
               (specific_dest cwd)"
    by simp_all
  note fin = fetch_fs_copied(1)[OF split cwd loc g sp gf sf]
  from two_copies[OF gf sf c1 c2 general_source_not_specific_dest[OF g]] obtain a b where
    "read_bytes e (fs s) g = Inr a"
    and "copy_both e g sp cwd (fs s) (general_dest cwd) = Some (File a)"
    and "node_of e (copy_both e g sp cwd (fs s)) g = Some (File a)"
    and "copy_both e g sp cwd (fs s) (specific_dest cwd) = Some (File b)"
    and "node_of e (copy_both e g sp cwd (fs s)) sp = Some (File b)"
    by blast
  then show "\<exists>a b. read_bytes e (fs s) g = Inr a
             \<and> fs (snd (fetch e rule_path s)) (general_dest cwd) = Some (File a)
             \<and> node_of e (fs (snd (fetch e rule_path s))) g = Some (File a)
             \<and> fs (snd (fetch e rule_path s)) (specific_dest cwd) = Some (File b)
             \<and> node_of e (fs (snd (fetch e rule_path s))) sp = Some (File b)"
    unfolding fin by blast
next
  assume "get_rules_path e (fs (snd (fetch e rule_path s))) = get_rules_path e (fs s)"
  then show "fs (snd (fetch e rule_path (snd (fetch e rule_path s))))
          = fs (snd (fetch e rule_path s))"
    by (rule fetch_fs_idempotent)
qed

theorem fetch_overwrites_and_is_idempotent_witness:
  "fs stale_state (general_dest [''proj'']) = Some (File ''# Old General Rule'')
   \<and> fs stale_state (specific_dest [''proj'']) = Some (File ''# Old Django Rule'')
   \<and> exit_code (fetch demo_env ''backend/django'' stale_state) = 0
   \<and> fs (snd (fetch demo_env ''backend/django'' stale_state)) (general_dest [''proj''])
       = Some (File ''# Backend General Rule'')
   \<and> fs (snd (fetch demo_env ''backend/django'' stale_state)) (specific_dest [''proj''])
       = Some (File ''# Django Rule'')
   \<and> fs (snd (fetch demo_env ''backend/django''
                (snd (fetch demo_env ''backend/django'' stale_state))))
       = fs (snd (fetch demo_env ''backend/django'' stale_state))"
proof -
  let ?g = "PathSrc [''opt'', ''tool'', ''rules'', ''backend'', ''general'', ''RULE.md'']"
  let ?sp = "PathSrc [''opt'', ''tool'', ''rules'', ''backend'', ''django'', ''RULE.md'']"
  let ?s1 = "snd (fetch demo_env ''backend/django'' stale_state)"
  have h1: "split_str CHR ''/'' ''backend/django'' = [''backend'', ''django'']" by simp
  have h2: "getcwd demo_env = Inr [''proj'']" by (simp add: demo_env_def)
  have h3: "get_rules_path demo_env (fs stale_state) = Inr (PathSrc [''opt'', ''tool'', ''rules''])"
    by code_simp
  have h4: "joinpath (PathSrc [''opt'', ''tool'', ''rules'']) [''backend'', ''general'', ''RULE.md'']
              = Inr ?g" by (simp add: path_join_def)
  have h5: "joinpath (PathSrc [''opt'', ''tool'', ''rules'']) [''backend'', ''django'', ''RULE.md'']
              = Inr ?sp" by (simp add: path_join_def)
  have h6: "fs stale_state (general_dest [''proj'']) = Some (File ''# Old General Rule'')"
    by code_simp
  have h7: "fs stale_state (specific_dest [''proj'']) = Some (File ''# Old Django Rule'')"
    by code_simp
  have h8: "exit_code (fetch demo_env ''backend/django'' stale_state) = 0" by code_simp
  have u: "get_rules_path demo_env (fs ?s1) = get_rules_path demo_env (fs stale_state)"
    by code_simp
  have rg: "read_bytes demo_env (fs stale_state) ?g = Inr ''# Backend General Rule''"
    by code_simp
  have ns: "node_of demo_env (fs ?s1) ?sp = Some (File ''# Django Rule'')" by code_simp
  note t = fetch_overwrites_and_is_idempotent[of "''backend/django''" "''backend''" "''django''"
             demo_env "[''proj'']" stale_state "PathSrc [''opt'', ''tool'', ''rules'']" ?g ?sp
             "''# Old General Rule''" "''# Old Django Rule''"]
  from t h1 h2 h3 h4 h5 h6 h7 h8 obtain a b where
    a: "read_bytes demo_env (fs stale_state) ?g = Inr a"
    and ga: "fs ?s1 (general_dest [''proj'']) = Some (File a)"
    and sb: "fs ?s1 (specific_dest [''proj'']) = Some (File b)"
    and nb: "node_of demo_env (fs ?s1) ?sp = Some (File b)"
    by blast
  from a rg have a': "a = ''# Backend General Rule''" by simp
  from nb ns have b': "b = ''# Django Rule''" by simp
  from t u have idem: "fs (snd (fetch demo_env ''backend/django'' ?s1)) = fs ?s1" by blast
  show ?thesis using h6 h7 h8 ga sb a' b' idem by simp
qed


end
